theory Spec2Isabelle
  imports Main "HOL-Library.AList" "HOL-Library.List_Lexorder"
begin

section \<open>Go values as the reflection API shows them\<close>

text \<open>
  The library inspects every value through package reflect.  A value is modelled as a finite
  tree: a pointer carries the address and the content of its target, a struct carries, for
  each field, the field descriptor, the address of the field and its content.  Finite trees
  cannot hold pointer cycles, which the library does not guard against either.
  A nil slice and an empty slice are both a slice with no elements (the code under study
  only reads their length), and likewise for maps.
\<close>

type_synonym addr = nat

datatype kind =
  KInvalid | KBool | KInt | KUint | KFloat | KString
  | KPtr | KInterface | KStruct | KSlice | KArray | KMap

text \<open>A type: predeclared and named scalar types carry their kind and name; a collection
  type carries its name (empty for a type literal) and its element type.  Kind \<open>KInt\<close>
  stands for all signed integer kinds, \<open>KUint\<close> for the unsigned ones and \<open>KFloat\<close> for both
  floating-point kinds.\<close>

datatype scalar = SBool | SInt | SUint | SFloat | SString

fun ScalarKind :: "scalar \<Rightarrow> kind" where
  "ScalarKind SBool = KBool"
| "ScalarKind SInt = KInt"
| "ScalarKind SUint = KUint"
| "ScalarKind SFloat = KFloat"
| "ScalarKind SString = KString"

datatype gtype =
    TBasic scalar string
  | TStruct string
  | TInterface string
  | TPtr gtype
  | TSlice string gtype
  | TArray string nat gtype
  | TMap string gtype gtype

fun TypeKind :: "gtype \<Rightarrow> kind" where
  "TypeKind (TBasic k _) = ScalarKind k"
| "TypeKind (TStruct _) = KStruct"
| "TypeKind (TInterface _) = KInterface"
| "TypeKind (TPtr _) = KPtr"
| "TypeKind (TSlice _ _) = KSlice"
| "TypeKind (TArray _ _ _) = KArray"
| "TypeKind (TMap _ _ _) = KMap"

text \<open>reflect.Type.Elem; it panics on a type without element type (\<open>None\<close>).\<close>

fun TypeElem :: "gtype \<Rightarrow> gtype option" where
  "TypeElem (TPtr t) = Some t"
| "TypeElem (TSlice _ t) = Some t"
| "TypeElem (TArray _ _ t) = Some t"
| "TypeElem (TMap _ _ t) = Some t"
| "TypeElem _ = None"

datatype basic = BBool bool | BInt int | BFloat int int | BString string

text \<open>reflect.StructField, with the struct tag as a list of key/value pairs.  The package
  path is empty exactly for an exported field.\<close>

record StructField =
  Name :: string
  PkgPath :: string
  Type :: gtype
  Anonymous :: bool
  Tag :: "(string \<times> string) list"

datatype gval =
    VNil
  | VBasic scalar string basic
  | VPtr gtype "(addr \<times> gval) option"
  | VStruct gtype "(StructField \<times> addr \<times> gval) list"
  | VSlice gtype "(addr \<times> gval) list"
  | VArray gtype "(addr \<times> gval) list"
  | VMap gtype "(gval \<times> gval) list"
  | VIface gtype gval

text \<open>
  \<open>VBasic k n b\<close> is the scalar \<open>b\<close> of the type named \<open>n\<close>, whose kind is \<open>k\<close>.
  \<open>VNil\<close> is the nil interface value; reflect.ValueOf turns it into the zero Value, of kind
  Invalid.  \<open>VPtr t None\<close> is the nil pointer of pointer type \<open>t\<close>.  \<open>VIface t d\<close> is a
  variable of interface type \<open>t\<close> holding the dynamic value \<open>d\<close> (\<open>VNil\<close> when it is nil); it
  is only met as a struct field, an element or the target of a pointer.
  A reflect.Value is a value together with its address when it is addressable.
\<close>

type_synonym Value = "gval \<times> addr option"

fun Kind :: "gval \<Rightarrow> kind" where
  "Kind VNil = KInvalid"
| "Kind (VBasic k _ _) = ScalarKind k"
| "Kind (VPtr _ _) = KPtr"
| "Kind (VStruct _ _) = KStruct"
| "Kind (VSlice _ _) = KSlice"
| "Kind (VArray _ _) = KArray"
| "Kind (VMap _ _) = KMap"
| "Kind (VIface _ _) = KInterface"

fun IsNil :: "gval \<Rightarrow> bool" where
  "IsNil (VPtr _ None) = True"
| "IsNil (VIface _ VNil) = True"
| "IsNil _ = False"

text \<open>reflect.Value.Interface: the value as an \<open>any\<close>; an interface variable gives up its
  dynamic value.\<close>

fun Interface :: "gval \<Rightarrow> gval" where
  "Interface (VIface _ d) = d"
| "Interface v = v"

text \<open>reflect.Value.Elem on a pointer or an interface; the zero Value for nil.\<close>

fun Elem :: "gval \<Rightarrow> Value" where
  "Elem (VPtr _ (Some (a, v))) = (v, Some a)"
| "Elem (VIface _ d) = (d, None)"
| "Elem _ = (VNil, None)"

text \<open>reflect.Indirect: one pointer level is followed, anything else is returned as it is.\<close>

definition Indirect :: "Value \<Rightarrow> Value" where
  "Indirect rv = (if Kind (fst rv) = KPtr then Elem (fst rv) else rv)"

fun Len :: "gval \<Rightarrow> nat" where
  "Len (VSlice _ es) = length es"
| "Len (VArray _ es) = length es"
| "Len (VMap _ kvs) = length kvs"
| "Len (VBasic _ _ (BString s)) = length s"
| "Len _ = 0"

text \<open>The error values: a plain error with its message, the map validation.Errors, and
  go-ozzo's internal error that reports a mistake in the rule declaration.\<close>

datatype verr =
    Err string
  | Errors "(string \<times> verr) list"
  | InternalError string


text \<open>The dynamic type of a value; the nil interface value has none.\<close>

fun TypeOf :: "gval \<Rightarrow> gtype option" where
  "TypeOf VNil = None"
| "TypeOf (VBasic k n _) = Some (TBasic k n)"
| "TypeOf (VPtr t _) = Some t"
| "TypeOf (VStruct t _) = Some t"
| "TypeOf (VSlice t _) = Some t"
| "TypeOf (VArray t _) = Some t"
| "TypeOf (VMap t _) = Some t"
| "TypeOf (VIface t _) = Some t"

text \<open>The outcome of a call: it returns, it panics, or the model ran out of fuel (only the
  traversals that call back into user code take fuel).\<close>

datatype 'a outcome = Return 'a | Panic | OutOfFuel

subsection \<open>Decimal numerals and type names\<close>

definition digit_char :: "nat \<Rightarrow> char" where
  "digit_char d = char_of (48 + d)"

fun nat_string :: "nat \<Rightarrow> string" where
  "nat_string n = (if n < 10 then [digit_char n] else nat_string (n div 10) @ [digit_char (n mod 10)])"

declare nat_string.simps [simp del]

text \<open>strconv.Itoa.\<close>

definition Itoa :: "int \<Rightarrow> string" where
  "Itoa i = (if i < 0 then CHR ''-'' # nat_string (nat (- i)) else nat_string (nat i))"

text \<open>The name that the verb \<open>%T\<close> prints for a type.\<close>

fun TypeString :: "gtype \<Rightarrow> string" where
  "TypeString (TBasic _ n) = n"
| "TypeString (TStruct n) = n"
| "TypeString (TInterface n) = n"
| "TypeString (TPtr t) = CHR ''*'' # TypeString t"
| "TypeString (TSlice n t) = (if n = [] then ''[]'' @ TypeString t else n)"
| "TypeString (TArray n l t) =
     (if n = [] then ''['' @ nat_string l @ '']'' @ TypeString t else n)"
| "TypeString (TMap n k t) =
     (if n = [] then ''map['' @ TypeString k @ '']'' @ TypeString t else n)"

definition Sprintf_T :: "gval \<Rightarrow> string" where
  "Sprintf_T v = (case TypeOf v of None \<Rightarrow> ''<nil>'' | Some t \<Rightarrow> TypeString t)"

text \<open>Sequencing of outcomes, and the outcomes of a loop collected in order, each with
  the list of events it adds.\<close>

definition obind :: "'a outcome \<Rightarrow> ('a \<Rightarrow> 'b outcome) \<Rightarrow> 'b outcome" where
  "obind m f = (case m of Return x \<Rightarrow> f x | Panic \<Rightarrow> Panic | OutOfFuel \<Rightarrow> OutOfFuel)"

fun collect :: "('a \<times> 'e list) outcome list \<Rightarrow> ('a list \<times> 'e list) outcome" where
  "collect [] = Return ([], [])"
| "collect (m # ms) =
     obind m (\<lambda>(x, tr1). obind (collect ms) (\<lambda>(xs, tr2). Return (x # xs, tr1 @ tr2)))"

text \<open>reflect.Value.Addr of an addressable value, and a pointer with its target replaced.\<close>

definition Addr :: "gval \<Rightarrow> addr \<Rightarrow> gval" where
  "Addr v a = (case TypeOf v of Some t \<Rightarrow> VPtr (TPtr t) (Some (a, v)) | None \<Rightarrow> VNil)"

fun SetElem :: "gval \<Rightarrow> gval \<Rightarrow> gval" where
  "SetElem (VPtr t (Some (a, _))) x = VPtr t (Some (a, x))"
| "SetElem v x = v"
section \<open>The Unique rule\<close>

text \<open>
  uniqueRule.Validate collects the keys \<open>f 0, ..., f (l - 1)\<close> in a Go map and compares the
  size of the map with \<open>l\<close>.  The map is an association list without repeated keys; the key
  type stands for a comparable Go type, with HOL equality as its \<open>==\<close>.
\<close>

definition uniqueRule_Validate :: "(nat \<Rightarrow> 'k) \<Rightarrow> gval \<Rightarrow> verr option" where
  "uniqueRule_Validate f value =
    (let rv = (value, None :: addr option) in
     if (Kind (fst rv) = KPtr \<or> Kind (fst rv) = KInterface) \<and> IsNil (fst rv) then None
     else
       let rv = Indirect rv in
       if Kind (fst rv) = KSlice \<or> Kind (fst rv) = KArray then
         (let l = Len (fst rv);
              m = fold (\<lambda>i m. AList.update (f i) () m) [0..<l] []
          in if length m \<noteq> l then Some (Err ''not unique'') else None)
       else Some (Err ''must be slice''))"


section \<open>Rules and their schema descriptions\<close>

text \<open>
  A rule of this package is one of the struct types below.  Where the Go struct embeds a
  go-ozzo rule, whose Validate method it inherits, the datatype carries that method as a
  function: how an individual go-ozzo rule reaches its verdict is outside the package.
\<close>

type_synonym ozzo_rule = "gval \<Rightarrow> verr option"

text \<open>A time.Time, as far as dateRule.Describe reads it.\<close>

datatype Time = Time (IsZero: bool) (TimeString: string)

datatype rule =
    requiredRule ozzo_rule string
  | notNilRule ozzo_rule
  | absentRule ozzo_rule bool
  | describe string
  | defaulter gval
  | example gval
  | deprecate
  | custom "gval \<Rightarrow> verr option" string
  | inlineRule ozzo_rule "gval \<Rightarrow> verr option" string
  | uniqueRule "nat \<Rightarrow> gval" string
  | thresholdRule ozzo_rule gval bool
  | lengthRule ozzo_rule int int
  | inRule ozzo_rule "gval list"
  | keyInRule "string list"
  | hasAlphabetic bool
  | dateRule ozzo_rule string Time Time
  | stringRule ozzo_rule string
  | eachRule ozzo_rule "rule list"
  | skipRule bool string

text \<open>The float64 that a scalar converts to; the conversion is kept symbolic.\<close>

datatype float64 = Float64 basic

text \<open>
  openapi3.Schema, with the fields that the Describe methods write.  Schemas live in a
  store, so that the two pointers a Describe method receives (the enclosing schema and
  \<open>ref.Value\<close>) may or may not be the same object.
\<close>

record Schema =
  SchemaType :: "string list"
  Format :: string
  Description :: string
  Enum :: "gval list"
  Default :: gval
  Example :: gval
  UniqueItems :: bool
  Nullable :: bool
  Deprecated :: bool
  SchemaMin :: "float64 option"
  SchemaMax :: "float64 option"
  Required :: "string list"
  Properties :: "(string \<times> addr) list"

type_synonym store = "addr \<Rightarrow> Schema"

definition HasSuffix :: "string \<Rightarrow> string \<Rightarrow> bool" where
  "HasSuffix s suffix =
     (length suffix \<le> length s \<and> drop (length s - length suffix) s = suffix)"

text \<open>The statements shared by every description-appending Describe method:
  \<^verbatim>\<open>if d != "" && !strings.HasSuffix(d, " ") { d += " " }; d += desc\<close>.\<close>

definition appendDescription :: "string \<Rightarrow> Schema \<Rightarrow> Schema" where
  "appendDescription desc s =
     (let s1 = (if Description s \<noteq> [] \<and> \<not> HasSuffix (Description s) '' ''
                then s\<lparr>Description := Description s @ '' ''\<rparr> else s)
      in s1\<lparr>Description := Description s1 @ desc\<rparr>)"

text \<open>Types.Is: the type list names exactly the given type.\<close>

definition Types_Is :: "string list \<Rightarrow> string \<Rightarrow> bool" where
  "Types_Is ts typ = (length ts = 1 \<and> ts ! 0 = typ)"

text \<open>getFloat: the threshold, after one pointer level, converted to float64.  Taking the
  type of the zero Value panics.\<close>

definition getFloat :: "gval \<Rightarrow> (verr + float64) outcome" where
  "getFloat unk =
     (let v = fst (Indirect (unk, None)) in
      case TypeOf v of
        None \<Rightarrow> Panic
      | Some t \<Rightarrow>
          (case v of
             VBasic _ _ b \<Rightarrow>
               if TypeKind t \<in> {KInt, KUint, KFloat} then Return (Inr (Float64 b))
               else Return (Inl (Err (''cannot convert '' @ TypeString t @ '' to float64'')))
           | _ \<Rightarrow> Return (Inl (Err (''cannot convert '' @ TypeString t @ '' to float64'')))))"

definition Join :: "string list \<Rightarrow> string \<Rightarrow> string" where
  "Join elems sep = (case elems of [] \<Rightarrow> [] | e # es \<Rightarrow> e @ concat (map (\<lambda>x. sep @ x) es))"

text \<open>
  The Describe methods.  \<open>schema\<close> and \<open>ref\<close> are the addresses of the enclosing schema and of
  \<open>ref.Value\<close>; the result is the returned error and the store after the call.
\<close>

fun Describe :: "rule \<Rightarrow> string \<Rightarrow> addr \<Rightarrow> addr \<Rightarrow> store \<Rightarrow> (verr option \<times> store) outcome"
  and Describe_all :: "rule list \<Rightarrow> string \<Rightarrow> addr \<Rightarrow> addr \<Rightarrow> store \<Rightarrow> (verr option \<times> store) outcome"
where
  "Describe (requiredRule _ _) name schema ref st =
     Return (None, st(schema := (st schema)\<lparr>Required := Required (st schema) @ [name]\<rparr>))"
| "Describe (notNilRule _) name schema ref st =
     Return (None, st(ref := (st ref)\<lparr>Nullable := False\<rparr>))"
| "Describe (absentRule _ skipNil) name schema ref st =
     Return (None, st(ref := appendDescription (if skipNil then ''empty'' else ''null'') (st ref)))"
| "Describe (describe desc) name schema ref st =
     Return (None, st(ref := appendDescription desc (st ref)))"
| "Describe (defaulter a) name schema ref st =
     Return (None, st(ref := (st ref)\<lparr>Default := a\<rparr>))"
| "Describe (example ex) name schema ref st =
     Return (None, st(ref := (st ref)\<lparr>Example := ex\<rparr>))"
| "Describe deprecate name schema ref st =
     Return (None, st(ref := (st ref)\<lparr>Deprecated := True\<rparr>))"
| "Describe (custom _ desc) name schema ref st =
     Return (None, st(ref := appendDescription desc (st ref)))"
| "Describe (inlineRule _ _ desc) name schema ref st =
     Return (None, st(ref := appendDescription desc (st ref)))"
| "Describe (uniqueRule _ _) name schema ref st =
     Return (None, st(ref := (st ref)\<lparr>UniqueItems := True\<rparr>))"
| "Describe (thresholdRule _ threshold mn) name schema ref st =
     (let st1 = (if Types_Is (SchemaType (st ref)) ''string''
                 then st(ref := (st ref)\<lparr>Format := Sprintf_T threshold\<rparr>) else st)
      in case getFloat threshold of
           Panic \<Rightarrow> Panic
         | OutOfFuel \<Rightarrow> OutOfFuel
         | Return (Inl err) \<Rightarrow> Return (Some err, st1)
         | Return (Inr f) \<Rightarrow>
             if mn then Return (None, st1(ref := (st1 ref)\<lparr>SchemaMin := Some f\<rparr>))
             else Return (None, st1(ref := (st1 ref)\<lparr>SchemaMax := Some f\<rparr>)))"
| "Describe (lengthRule _ lo hi) name schema ref st =
     (let st1 = st(ref := (st ref)\<lparr>SchemaMax := Some (Float64 (BInt hi))\<rparr>)
      in Return (None, st1(ref := (st1 ref)\<lparr>SchemaMin := Some (Float64 (BInt lo))\<rparr>)))"
| "Describe (inRule _ values) name schema ref st =
     Return (None, st(ref := (st ref)\<lparr>Enum := values\<rparr>))"
| "Describe (keyInRule values) name schema ref st =
     Return (None, st(ref := appendDescription (''keys must be in ('' @ Join values '','' @ '')'') (st ref)))"
| "Describe (hasAlphabetic _) name schema ref st =
     Return (None, st(ref := (st ref)\<lparr>Description :=
        Description (st ref) @ ''Must contain at least one alphabetic character. ''\<rparr>))"
| "Describe (dateRule _ layout mn mx) name schema ref st =
     (let st1 = st(ref := (st ref)\<lparr>Format := layout\<rparr>);
          st2 = (if \<not> IsZero mn then st1(ref := appendDescription (''> '' @ TimeString mn) (st1 ref))
                 else st1);
          st3 = (if \<not> IsZero mx then st2(ref := appendDescription (''< '' @ TimeString mx) (st2 ref))
                 else st2)
      in Return (None, st3))"
| "Describe (stringRule _ desc) name schema ref st =
     Return (None, st(ref := appendDescription desc (st ref)))"
| "Describe (eachRule _ rules) name schema ref st = Describe_all rules name schema ref st"
| "Describe (skipRule _ desc) name schema ref st =
     Return (None, st(ref := appendDescription desc (st ref)))"
| "Describe_all [] name schema ref st = Return (None, st)"
| "Describe_all (r # rs) name schema ref st =
     (case Describe r name schema ref st of
        Return (None, st1) \<Rightarrow> Describe_all rs name schema ref st1
      | other \<Rightarrow> other)"





section \<open>Validation by the rules\<close>

text \<open>
  go-ozzo's helpers validation.Indirect and validation.IsEmpty, which the rules of this
  package call, follow go-ozzo's documentation: Indirect follows pointers and interfaces
  and reports whether it met nil; IsEmpty holds for the zero Value, for the empty string,
  slice, array and map, for false and zero, and for a pointer or interface that is nil or
  whose target is empty.  (Values of type time.Time and sql Valuers are not modelled.)
\<close>

fun ozzo_Indirect :: "gval \<Rightarrow> gval \<times> bool" where
  "ozzo_Indirect VNil = (VNil, True)"
| "ozzo_Indirect (VPtr _ None) = (VNil, True)"
| "ozzo_Indirect (VPtr _ (Some (a, v))) = ozzo_Indirect v"
| "ozzo_Indirect (VIface _ d) = ozzo_Indirect d"
| "ozzo_Indirect v = (v, False)"

fun ozzo_IsEmpty :: "gval \<Rightarrow> bool" where
  "ozzo_IsEmpty VNil = True"
| "ozzo_IsEmpty (VBasic _ _ (BString s)) = (s = [])"
| "ozzo_IsEmpty (VBasic _ _ (BBool b)) = (\<not> b)"
| "ozzo_IsEmpty (VBasic _ _ (BInt i)) = (i = 0)"
| "ozzo_IsEmpty (VBasic _ _ (BFloat m e)) = (m = 0)"
| "ozzo_IsEmpty (VSlice _ es) = (es = [])"
| "ozzo_IsEmpty (VArray _ es) = (es = [])"
| "ozzo_IsEmpty (VMap _ kvs) = (kvs = [])"
| "ozzo_IsEmpty (VPtr _ None) = True"
| "ozzo_IsEmpty (VPtr _ (Some (a, v))) = ozzo_IsEmpty v"
| "ozzo_IsEmpty (VIface _ d) = ozzo_IsEmpty d"
| "ozzo_IsEmpty (VStruct _ _) = False"

text \<open>validation.Required: the value must be neither nil nor empty.\<close>

definition ozzo_Required :: ozzo_rule where
  "ozzo_Required value0 =
     (let (value, isNil) = ozzo_Indirect value0 in
      if isNil \<or> ozzo_IsEmpty value then Some (Err ''cannot be blank'') else None)"

definition Required_rule :: rule where
  "Required_rule = requiredRule ozzo_Required ''required''"


text \<open>
  Functions of the Go standard library and methods of user types that the rules call:
  the String method of a type that implements fmt.Stringer, strconv.ParseFloat (64 bits),
  the verb \<open>%v\<close>, and the keys of the JSON object that a value marshals to (json.Marshal
  followed by json.Unmarshal into a map, an error if either fails).
\<close>

record library =
  Stringer :: "gtype \<Rightarrow> (gval \<Rightarrow> string) option"
  ParseFloat :: "string \<Rightarrow> basic option"
  Sprintf_v :: "gval \<Rightarrow> string"
  json_keys :: "gval \<Rightarrow> verr + string list"

text \<open>strconv.ParseUint and strconv.ParseInt in base 10 with 64 bits: a non-empty sequence
  of decimal digits, for ParseInt after an optional sign, whose value is in range.\<close>

definition digit_value :: "char \<Rightarrow> nat option" where
  "digit_value c =
     (let n = (of_char c :: nat) in if 48 \<le> n \<and> n \<le> 57 then Some (n - 48) else None)"

fun parse_digits :: "nat \<Rightarrow> string \<Rightarrow> nat option" where
  "parse_digits acc [] = Some acc"
| "parse_digits acc (c # cs) =
     (case digit_value c of None \<Rightarrow> None | Some d \<Rightarrow> parse_digits (10 * acc + d) cs)"

definition ParseUint :: "string \<Rightarrow> int option" where
  "ParseUint s =
     (if s = [] then None
      else case parse_digits 0 s of
             None \<Rightarrow> None
           | Some n \<Rightarrow> if n < 2 ^ 64 then Some (int n) else None)"

definition ParseInt :: "string \<Rightarrow> int option" where
  "ParseInt s =
     (let neg = (s \<noteq> [] \<and> hd s = CHR ''-'');
          ds = (if s \<noteq> [] \<and> (hd s = CHR ''-'' \<or> hd s = CHR ''+'') then tl s else s)
      in if ds = [] then None
         else case parse_digits 0 ds of
                None \<Rightarrow> None
              | Some n \<Rightarrow>
                  if neg then (if n \<le> 2 ^ 63 then Some (- int n) else None)
                  else (if n < 2 ^ 63 then Some (int n) else None))"

text \<open>The type assertion \<open>value.(string)\<close>.\<close>

fun as_string :: "gval \<Rightarrow> string option" where
  "as_string (VBasic k n (BString s)) = (if k = SString \<and> n = ''string'' then Some s else None)"
| "as_string _ = None"

definition thresholdRule_Validate ::
  "library \<Rightarrow> ozzo_rule \<Rightarrow> gval \<Rightarrow> gval \<Rightarrow> verr option outcome" where
  "thresholdRule_Validate L ThresholdRule threshold value0 =
     (let (value, isNil) = ozzo_Indirect value0 in
      if isNil \<or> ozzo_IsEmpty value then Return None
      else if Kind value \<noteq> KString then Return (ThresholdRule value)
      else
        let value = (case Option.bind (TypeOf value) (Stringer L) of
                       Some str \<Rightarrow> VBasic SString ''string'' (BString (str value))
                     | None \<Rightarrow> value)
        in
          if Kind threshold = KInt then
            (case as_string value of
               None \<Rightarrow> Panic
             | Some s \<Rightarrow>
                 (case ParseInt s of
                    None \<Rightarrow> Return (Some (Err ''must be int64''))
                  | Some i \<Rightarrow> Return (ThresholdRule (VBasic SInt ''int64'' (BInt i)))))
          else if Kind threshold = KUint then
            (case as_string value of
               None \<Rightarrow> Panic
             | Some s \<Rightarrow>
                 (case ParseUint s of
                    None \<Rightarrow> Return (Some (Err ''must be uint64''))
                  | Some i \<Rightarrow> Return (ThresholdRule (VBasic SUint ''uint64'' (BInt i)))))
          else if Kind threshold = KFloat then
            (case as_string value of
               None \<Rightarrow> Panic
             | Some s \<Rightarrow>
                 (case ParseFloat L s of
                    None \<Rightarrow> Return (Some (Err ''must be float64''))
                  | Some b \<Rightarrow> Return (ThresholdRule (VBasic SFloat ''float64'' b))))
          else Return (ThresholdRule value))"

text \<open>
  strings.TrimSpace removes the leading and the trailing white space of Unicode; the
  string is a sequence of bytes in UTF-8, so the white space runes are the byte sequences
  below.
\<close>

definition space_runes :: "string list" where
  "space_runes =
     [[CHR 0x09], [CHR 0x0A], [CHR 0x0B], [CHR 0x0C], [CHR 0x0D], [CHR 0x20],
      [CHR 0xC2, CHR 0x85], [CHR 0xC2, CHR 0xA0], [CHR 0xE1, CHR 0x9A, CHR 0x80],
      [CHR 0xE2, CHR 0x80, CHR 0x80], [CHR 0xE2, CHR 0x80, CHR 0x81],
      [CHR 0xE2, CHR 0x80, CHR 0x82], [CHR 0xE2, CHR 0x80, CHR 0x83],
      [CHR 0xE2, CHR 0x80, CHR 0x84], [CHR 0xE2, CHR 0x80, CHR 0x85],
      [CHR 0xE2, CHR 0x80, CHR 0x86], [CHR 0xE2, CHR 0x80, CHR 0x87],
      [CHR 0xE2, CHR 0x80, CHR 0x88], [CHR 0xE2, CHR 0x80, CHR 0x89],
      [CHR 0xE2, CHR 0x80, CHR 0x8A], [CHR 0xE2, CHR 0x80, CHR 0xA8],
      [CHR 0xE2, CHR 0x80, CHR 0xA9], [CHR 0xE2, CHR 0x80, CHR 0xAF],
      [CHR 0xE2, CHR 0x81, CHR 0x9F], [CHR 0xE3, CHR 0x80, CHR 0x80]]"

text \<open>The number of bytes of the white space rune that the string starts with, if any.\<close>

definition leading_space :: "string \<Rightarrow> nat" where
  "leading_space s =
     (case filter (\<lambda>r. take (length r) s = r) space_runes of [] \<Rightarrow> 0 | r # _ \<Rightarrow> length r)"

function TrimLeftSpace :: "string \<Rightarrow> string" where
  "TrimLeftSpace s =
     (if leading_space s = 0 \<or> s = [] then s else TrimLeftSpace (drop (leading_space s) s))"
  by pat_completeness auto
termination
  by (relation "measure length") auto

text \<open>The same from the right end.\<close>

definition trailing_space :: "string \<Rightarrow> nat" where
  "trailing_space s =
     (case filter (\<lambda>r. length r \<le> length s \<and> drop (length s - length r) s = r) space_runes of
        [] \<Rightarrow> 0 | r # _ \<Rightarrow> length r)"

function TrimRightSpace :: "string \<Rightarrow> string" where
  "TrimRightSpace s =
     (if trailing_space s = 0 \<or> s = [] then s
      else TrimRightSpace (take (length s - trailing_space s) s))"
  by pat_completeness auto
termination
  by (relation "measure length") auto

declare TrimLeftSpace.simps [simp del] TrimRightSpace.simps [simp del]

definition TrimSpace :: "string \<Rightarrow> string" where
  "TrimSpace s = TrimRightSpace (TrimLeftSpace s)"

text \<open>The two regular expressions: \<open>[^[:alpha:]]\<close> matches every character that is not an
  ASCII letter and \<open>\D\<close> every character that is not an ASCII digit; replacing the matches
  by the empty string keeps the letters, and the digits.\<close>

definition is_alpha :: "char \<Rightarrow> bool" where
  "is_alpha c = (let n = (of_char c :: nat) in (65 \<le> n \<and> n \<le> 90) \<or> (97 \<le> n \<and> n \<le> 122))"

definition is_digit :: "char \<Rightarrow> bool" where
  "is_digit c = (let n = (of_char c :: nat) in 48 \<le> n \<and> n \<le> 57)"

definition creditCardNumberLength :: nat where
  "creditCardNumberLength = 16"

definition hasAlphabetic_Validate :: "bool \<Rightarrow> gval \<Rightarrow> verr option" where
  "hasAlphabetic_Validate isCreditCardNumberCheck value =
     (case as_string value of
        None \<Rightarrow> Some (Err (''expected string, got '' @ Sprintf_T value))
      | Some v0 \<Rightarrow>
          let v = TrimSpace v0 in
          if v = [] then None
          else
            let ar = filter is_alpha v in
            if ar = [] then
              (if isCreditCardNumberCheck then
                 (let nr = filter is_digit v in
                  if length nr \<noteq> creditCardNumberLength then None
                  else Some (Err ''must not be a credit card number''))
               else Some (Err ''must contain at least one alphabetic character''))
            else None)"

text \<open>The message of an error, as \<open>%s\<close> prints it: a plain error prints its message (the
  message of validation.Errors is not needed here).\<close>

fun Error_string :: "verr \<Rightarrow> string" where
  "Error_string (Err m) = m"
| "Error_string (InternalError m) = m"
| "Error_string (Errors _) = []"

definition inRule_Validate :: "library \<Rightarrow> ozzo_rule \<Rightarrow> gval \<Rightarrow> verr option" where
  "inRule_Validate L InRule value =
     (case InRule value of
        Some err \<Rightarrow> Some (Err (Error_string err @ '' got '' @ [CHR 0x27] @ Sprintf_v L value @ [CHR 0x27]))
      | None \<Rightarrow> None)"

definition keyInRule_Validate :: "library \<Rightarrow> string list \<Rightarrow> gval \<Rightarrow> verr option" where
  "keyInRule_Validate L values value =
     (case json_keys L value of
        Inl err \<Rightarrow> Some err
      | Inr jsonmap \<Rightarrow>
          (case filter (\<lambda>k. k \<notin> set values) jsonmap of
             [] \<Rightarrow> None
           | k # _ \<Rightarrow> Some (Err (''key '' @ [CHR 0x27] @ k @ [CHR 0x27] @ '' not allowed''))))"

text \<open>The Validate method of each rule type; the rules that embed a go-ozzo rule without
  overriding Validate inherit the method of the embedded rule.\<close>

fun Rule_Validate :: "library \<Rightarrow> rule \<Rightarrow> gval \<Rightarrow> verr option outcome" where
  "Rule_Validate L (requiredRule RequiredRule _) value = Return (RequiredRule value)"
| "Rule_Validate L (notNilRule Rule) value = Return (Rule value)"
| "Rule_Validate L (absentRule Rule _) value = Return (Rule value)"
| "Rule_Validate L (describe _) value = Return None"
| "Rule_Validate L (defaulter _) value = Return None"
| "Rule_Validate L (example _) value = Return None"
| "Rule_Validate L deprecate value = Return None"
| "Rule_Validate L (custom f _) value = Return (f value)"
| "Rule_Validate L (inlineRule Rule _ _) value = Return (Rule value)"
| "Rule_Validate L (uniqueRule f _) value = Return (uniqueRule_Validate f value)"
| "Rule_Validate L (thresholdRule ThresholdRule threshold _) value =
     thresholdRule_Validate L ThresholdRule threshold value"
| "Rule_Validate L (lengthRule LengthRule _ _) value = Return (LengthRule value)"
| "Rule_Validate L (inRule InRule _) value = Return (inRule_Validate L InRule value)"
| "Rule_Validate L (keyInRule values) value = Return (keyInRule_Validate L values value)"
| "Rule_Validate L (hasAlphabetic cc) value = Return (hasAlphabetic_Validate cc value)"
| "Rule_Validate L (dateRule DateRule _ _ _) value = Return (DateRule value)"
| "Rule_Validate L (stringRule StringRule _) value = Return (StringRule value)"
| "Rule_Validate L (eachRule EachRule _) value = Return (EachRule value)"
| "Rule_Validate L (skipRule _ _) value = Return None"

text \<open>A library for the worked examples: no type implements fmt.Stringer, no string
  parses as a float, \<open>%v\<close> prints strings and integers, and only maps with string keys
  marshal to a JSON object.\<close>

definition exampleLibrary :: library where
  "exampleLibrary =
     \<lparr>Stringer = (\<lambda>t. None),
      ParseFloat = (\<lambda>s. None),
      Sprintf_v = (\<lambda>v. case v of VBasic k n (BString s) \<Rightarrow> s | VBasic k n (BInt i) \<Rightarrow> Itoa i | _ \<Rightarrow> []),
      json_keys = (\<lambda>v. case v of VMap t kvs \<Rightarrow> Inr (map (\<lambda>kv. Sprintf_T (fst kv)) kvs)
                           | _ \<Rightarrow> Inl (Err ''json: cannot unmarshal''))\<rparr>"

section \<open>Declarators and user code\<close>

text \<open>A context is the background context or a context that carries one more value.\<close>

datatype ctx = Background | WithValue string string ctx

text \<open>FieldRules binds the pointer to a field to the rules of the field.\<close>

record FieldRules =
  fieldPtr :: gval
  tag :: string
  rules :: "rule list"

definition Field :: "gval \<Rightarrow> rule list \<Rightarrow> FieldRules" where
  "Field p rs = \<lparr>fieldPtr = p, tag = [], rules = rs\<rparr>"

text \<open>
  A Go type has at most one method of a given name.  A type with a method Rules
  therefore implements either Ruler or ContextRuler, and a type with a method Normalize
  either Normalizer or ContextNormalizer.  A method takes its receiver as an \<open>any\<close> value.
  Normalize mutates what its receiver points to: it returns the receiver after the call.
\<close>

datatype rules_method =
    RulerM "gval \<Rightarrow> FieldRules list"
  | ContextRulerM "ctx \<Rightarrow> gval \<Rightarrow> FieldRules list"

datatype normalize_method =
    NormalizerM "gval \<Rightarrow> gval"
  | ContextNormalizerM "ctx \<Rightarrow> gval \<Rightarrow> gval"

text \<open>
  The program around the library: the method sets of its types (a method with a value
  receiver is in the method set of the type and of its pointer type, a method with a
  pointer receiver only in that of the pointer type), what go-ozzo's Validate does with a
  value once its rules have passed (the Validate method of a value that implements go-ozzo's
  Validatable, of the elements of a collection of such values, or of the target of a
  pointer), the allocator behind reflect.New (\<open>New t\<close> is the pointer, of type \<open>*t\<close>, to a
  fresh zero value; \<open>Alloc v\<close> is the address of a fresh variable and the copy of \<open>v\<close> stored
  there, whose fields have their addresses in the fresh variable), and the library
  functions.
\<close>

record env =
  Rules_method :: "gtype \<Rightarrow> rules_method option"
  ValueRules_method :: "gtype \<Rightarrow> (gval \<Rightarrow> rule list) option"
  Normalize_method :: "gtype \<Rightarrow> normalize_method option"
  Validatable :: "gval \<Rightarrow> verr option"
  New :: "gtype \<Rightarrow> gval"
  Alloc :: "gval \<Rightarrow> addr \<times> gval"
  Lib :: library

text \<open>The method of the dynamic type of a value.\<close>

definition method_of :: "(gtype \<Rightarrow> 'm option) \<Rightarrow> gval \<Rightarrow> 'm option" where
  "method_of table v = Option.bind (TypeOf v) table"

text \<open>\<^verbatim>\<open>ptr := reflect.New(v.Type()); ptr.Elem().Set(v)\<close>: the pointer to a fresh copy.\<close>

definition New_copy :: "env \<Rightarrow> gval \<Rightarrow> gval" where
  "New_copy E v = (case TypeOf v of Some t \<Rightarrow> VPtr (TPtr t) (Some (Alloc E v)) | None \<Rightarrow> VNil)"

section \<open>The normalization traversal\<close>

text \<open>
  The traversal returns the value after all hooks have run, and the list of the hook
  calls in the order in which they were made.  A call is named by the position of the
  value it was made on: the list of field indices, slice indices and map entry numbers (in
  the order of iteration) that leads to it from the top-level value.

  A reflect.Value that was reached through an unexported field is read-only: Interface,
  Set and SetMapIndex panic on it.  Package reflect keeps two flags, one for a field that
  is unexported and not embedded, which every value reached through it inherits, and one
  for an unexported embedded field, which its own fields do not inherit.
\<close>

type_synonym trace = "nat list list"

type_synonym roflag = "bool \<times> bool"

definition RO :: "roflag \<Rightarrow> bool" where
  "RO fl = (fst fl \<or> snd fl)"

text \<open>The flags of a field, of the target of a pointer, and of an element.\<close>

definition Field_flag :: "roflag \<Rightarrow> StructField \<Rightarrow> roflag" where
  "Field_flag fl sf =
     (fst fl \<or> (PkgPath sf \<noteq> [] \<and> \<not> Anonymous sf), PkgPath sf \<noteq> [] \<and> Anonymous sf)"

definition Index_flag :: "roflag \<Rightarrow> roflag" where
  "Index_flag fl = (RO fl, False)"

type_synonym walker = "nat list \<Rightarrow> roflag \<Rightarrow> Value \<Rightarrow> (gval \<times> trace) outcome"

definition callNormalize :: "env \<Rightarrow> ctx \<Rightarrow> nat list \<Rightarrow> gval \<Rightarrow> gval \<times> trace" where
  "callNormalize E ctx p v =
     (case method_of (Normalize_method E) v of
        Some (ContextNormalizerM Normalize) \<Rightarrow> (Normalize ctx v, [p])
      | Some (NormalizerM Normalize) \<Rightarrow> (Normalize v, [p])
      | None \<Rightarrow> (v, []))"

text \<open>The cases \<open>reflect.Struct\<close> and \<open>reflect.Ptr\<close>, which walkNormalize has for a field and
  again for an element of a slice; \<open>walk\<close> is the recursive call.\<close>

definition walkStructOrPtr ::
  "walker \<Rightarrow> env \<Rightarrow> ctx \<Rightarrow> nat list \<Rightarrow> roflag \<Rightarrow> addr option \<Rightarrow> gval \<Rightarrow> (gval \<times> trace) outcome" where
  "walkStructOrPtr walk E ctx p fl ad v =
     (if Kind v = KStruct then
        obind
          (case ad of
             Some a \<Rightarrow>
               if RO fl then Panic
               else (let (q, tr) = callNormalize E ctx p (Addr v a) in Return (fst (Elem q), tr))
           | None \<Rightarrow> Return (v, []))
          (\<lambda>(v1, tr1). obind (walk p fl (v1, ad)) (\<lambda>(v2, tr2). Return (v2, tr1 @ tr2)))
      else if Kind v = KPtr then
        (if IsNil v then Return (v, [])
         else if RO fl then Panic
         else
           let (v1, tr1) = callNormalize E ctx p (Interface v) in
           if Kind (fst (Elem v1)) = KStruct then
             obind (walk p fl (Elem v1)) (\<lambda>(x, tr2). Return (SetElem v1 x, tr1 @ tr2))
           else Return (v1, tr1))
      else Return (v, []))"

text \<open>The case \<open>reflect.Slice\<close>: the elements of a slice are addressable.\<close>

definition walkSlice ::
  "walker \<Rightarrow> env \<Rightarrow> ctx \<Rightarrow> nat list \<Rightarrow> roflag \<Rightarrow> (addr \<times> gval) list \<Rightarrow> ((addr \<times> gval) list \<times> trace) outcome" where
  "walkSlice walk E ctx p fl es =
     collect (map (\<lambda>(j, (a, elem)).
         obind (walkStructOrPtr walk E ctx (p @ [j]) (Index_flag fl) (Some a) elem)
           (\<lambda>(elem', tr). Return ((a, elem'), tr)))
       (zip [0..<length es] es))"

text \<open>The case \<open>reflect.Map\<close>: a value of struct kind is copied to a fresh variable,
  normalized there, and stored back under its key; any other value is passed over.\<close>

definition walkMap ::
  "walker \<Rightarrow> env \<Rightarrow> ctx \<Rightarrow> nat list \<Rightarrow> roflag \<Rightarrow> (gval \<times> gval) list \<Rightarrow> ((gval \<times> gval) list \<times> trace) outcome" where
  "walkMap walk E ctx p fl kvs =
     collect (map (\<lambda>(k, (key, val)).
         if Kind val = KStruct then
           (if RO fl then Panic
            else
              let cp = New_copy E val;
                  (cp1, tr1) = callNormalize E ctx (p @ [k]) (Interface cp)
              in obind (walk (p @ [k]) (False, False) (Elem cp1))
                   (\<lambda>(x, tr2). Return ((key, x), tr1 @ tr2)))
         else Return ((key, val), []))
       (zip [0..<length kvs] kvs))"

definition walkField ::
  "walker \<Rightarrow> env \<Rightarrow> ctx \<Rightarrow> nat list \<Rightarrow> roflag \<Rightarrow> addr option \<Rightarrow> gval \<Rightarrow> (gval \<times> trace) outcome" where
  "walkField walk E ctx p fl ad field =
     (case field of
        VSlice t es \<Rightarrow> obind (walkSlice walk E ctx p fl es) (\<lambda>(es', tr). Return (VSlice t es', tr))
      | VMap t kvs \<Rightarrow> obind (walkMap walk E ctx p fl kvs) (\<lambda>(kvs', tr). Return (VMap t kvs', tr))
      | _ \<Rightarrow> walkStructOrPtr walk E ctx p fl ad field)"

text \<open>walkNormalize: the fields of a struct in order.  NumField panics on a value that is
  not a struct.  Every nested call takes one unit of fuel.\<close>

fun walkNormalize :: "nat \<Rightarrow> env \<Rightarrow> ctx \<Rightarrow> nat list \<Rightarrow> roflag \<Rightarrow> Value \<Rightarrow> (gval \<times> trace) outcome" where
  "walkNormalize 0 E ctx p fl rv = OutOfFuel"
| "walkNormalize (Suc n) E ctx p fl rv =
     (case fst rv of
        VStruct t fs \<Rightarrow>
          obind
            (collect (map (\<lambda>(i, (sf, a, field)).
                 obind
                   (walkField (walkNormalize n E ctx) E ctx (p @ [i]) (Field_flag fl sf)
                      (if snd rv = None then None else Some a) field)
                   (\<lambda>(field', tr). Return ((sf, a, field'), tr)))
               (zip [0..<length fs] fs)))
            (\<lambda>(fs', tr). Return (VStruct t fs', tr))
      | _ \<Rightarrow> Panic)"

text \<open>normalizeRecursive: the hook of the top-level value, then the walk through its
  fields when it is a struct or a pointer to a struct.\<close>

definition normalizeRecursive :: "nat \<Rightarrow> env \<Rightarrow> ctx \<Rightarrow> gval \<Rightarrow> (gval \<times> trace) outcome" where
  "normalizeRecursive n E ctx a =
     (if a = VNil then Return (a, [])
      else
        let (a1, tr1) = callNormalize E ctx [] a in
        if Kind a1 = KPtr then
          (if IsNil a1 then Return (a1, tr1)
           else if Kind (fst (Elem a1)) = KStruct then
             obind (walkNormalize n E ctx [] (False, False) (Elem a1))
               (\<lambda>(x, tr2). Return (SetElem a1 x, tr1 @ tr2))
           else Return (a1, tr1))
        else if Kind a1 = KStruct then
          obind (walkNormalize n E ctx [] (False, False) (a1, None))
            (\<lambda>(x, tr2). Return (x, tr1 @ tr2))
        else Return (a1, tr1))"

text \<open>
  Positions are ordered as lists, lexicographically, a proper prefix being smaller: this
  is the order in which a depth-first walk that handles a value before its parts meets
  the positions.  \<open>below p k tr\<close>: the calls \<open>tr\<close> are in that order and all of them were made
  inside the parts number \<open>k\<close> and up of the value at \<open>p\<close>; \<open>at_or_below p tr\<close>: they are in
  that order and were made on the value at \<open>p\<close> or inside it.
\<close>

definition below :: "nat list \<Rightarrow> nat \<Rightarrow> trace \<Rightarrow> bool" where
  "below p k tr = (sorted_wrt (<) tr \<and> (\<forall>q\<in>set tr. \<exists>j r. k \<le> j \<and> q = p @ j # r))"

definition at_or_below :: "nat list \<Rightarrow> trace \<Rightarrow> bool" where
  "at_or_below p tr = (sorted_wrt (<) tr \<and> (\<forall>q\<in>set tr. \<exists>r. q = p @ r))"

definition ordered_walker :: "walker \<Rightarrow> bool" where
  "ordered_walker walk = (\<forall>p fl rv x tr. walk p fl rv = Return (x, tr) \<longrightarrow> below p 0 tr)"

text \<open>The value met by the walk has a hook that can be called: it is an addressable
  struct or a non-nil pointer, and the pointer type has a method Normalize.\<close>

definition has_hook :: "env \<Rightarrow> addr option \<Rightarrow> gval \<Rightarrow> bool" where
  "has_hook E ad v =
     ((Kind v = KStruct \<and> (\<exists>a. ad = Some a \<and> method_of (Normalize_method E) (Addr v a) \<noteq> None))
      \<or> (Kind v = KPtr \<and> \<not> IsNil v \<and> method_of (Normalize_method E) (Interface v) \<noteq> None))"

section \<open>Tag resolution and the expansion of embedded rules\<close>

text \<open>reflect.Value.Pointer of a pointer: the address it holds, 0 for nil.\<close>

fun Pointer :: "gval \<Rightarrow> addr" where
  "Pointer (VPtr _ (Some (a, _))) = a"
| "Pointer _ = 0"

text \<open>\<^verbatim>\<open>fieldValue.Elem().Type()\<close>: the type of the target of a pointer; taking the type of
  the zero Value, which Elem returns for nil, panics.\<close>

fun ElemType :: "gval \<Rightarrow> gtype outcome" where
  "ElemType (VPtr t (Some _)) = (case TypeElem t of Some et \<Rightarrow> Return et | None \<Rightarrow> Panic)"
| "ElemType _ = Panic"

text \<open>
  findStructField looks, from the last field to the first, for the field at the address
  that the pointer holds, and compares the types, since an embedded struct and its first
  field have the same address; it searches the embedded structs on its way.  \<open>ad\<close> tells
  whether the struct is addressable: UnsafeAddr panics on a field of a struct that is not,
  and NumField panics on a value that is not a struct.
\<close>

fun findStructField :: "bool \<Rightarrow> gval \<Rightarrow> gval \<Rightarrow> StructField option outcome" where
  "findStructField ad (VStruct t fs) fieldValue =
     fold (\<lambda>(sf, a, fi) found.
         case found of
           Return None \<Rightarrow>
             if \<not> ad then Panic
             else
               obind (if Pointer fieldValue = a
                      then obind (ElemType fieldValue) (\<lambda>et. Return (Type sf = et))
                      else Return False)
                 (\<lambda>same.
                    if same then Return (Some sf)
                    else if Anonymous sf then
                      (if TypeKind (Type sf) = KPtr then
                         (case fi of
                            VPtr _ (Some (b, target)) \<Rightarrow>
                              if Kind target = KStruct then findStructField True target fieldValue
                              else Return None
                          | _ \<Rightarrow> Return None)
                       else if Kind fi = KStruct then findStructField ad fi fieldValue
                       else Return None)
                    else Return None)
         | other \<Rightarrow> other)
       (rev fs) (Return None)"
| "findStructField ad v fieldValue = Panic"

text \<open>The declarator of a value, called: the bindings that its method Rules returns.\<close>

definition call_Rules :: "env \<Rightarrow> ctx \<Rightarrow> gval \<Rightarrow> FieldRules list option" where
  "call_Rules E ctx v =
     (case method_of (Rules_method E) v of
        Some (RulerM Rules) \<Rightarrow> Some (Rules v)
      | Some (ContextRulerM Rules) \<Rightarrow> Some (Rules ctx v)
      | None \<Rightarrow> None)"

text \<open>
  expandFields, from the source.  The loop appends to \<open>result\<close>; the recursive call for an
  embedded struct takes one unit of fuel.
\<close>

fun expandFields :: "nat \<Rightarrow> env \<Rightarrow> ctx \<Rightarrow> gval \<Rightarrow> FieldRules list \<Rightarrow> FieldRules list outcome" where
  "expandFields n E ctx structPtr flds =
     (let structVal = Indirect (structPtr, None) in
      if Kind (fst structVal) = KInvalid \<or> Kind (fst structVal) \<noteq> KStruct then Return flds
      else
        fold (\<lambda>fr acc.
            obind acc (\<lambda>result.
              let fv = fieldPtr fr in
              obind
                (if Kind fv = KPtr then
                   obind (findStructField (snd structVal \<noteq> None) (fst structVal) fv)
                     (\<lambda>sf. case sf of
                        Some sf' \<Rightarrow>
                          if Anonymous sf' then
                            (let embeddedPtr = Interface fv in
                             case method_of (Rules_method E) embeddedPtr of
                               Some (RulerM Rules) \<Rightarrow>
                                 (case n of
                                    0 \<Rightarrow> OutOfFuel
                                  | Suc m \<Rightarrow>
                                      obind (expandFields m E ctx embeddedPtr (Rules embeddedPtr))
                                        (\<lambda>xs. Return (Some xs)))
                             | Some (ContextRulerM Rules) \<Rightarrow>
                                 (case n of
                                    0 \<Rightarrow> OutOfFuel
                                  | Suc m \<Rightarrow>
                                      obind (expandFields m E ctx embeddedPtr (Rules ctx embeddedPtr))
                                        (\<lambda>xs. Return (Some xs)))
                             | None \<Rightarrow> Return None)
                          else Return None
                      | None \<Rightarrow> Return None)
                 else Return None)
                (\<lambda>expanded. case expanded of
                   Some xs \<Rightarrow> Return (result @ xs)
                 | None \<Rightarrow> Return (result @ [fr]))))
          flds (Return []))"

declare expandFields.simps [simp del]

text \<open>
  Modelled from the spec: ExpandFields, which convertFieldRules calls and whose source is
  not among the files.  The spec (4.3) says: "Given a container instance and its
  flat-or-nested binding list, the expander detects which bindings target an anonymous
  (embedded) sub-container, and if that sub-container itself exposes the RuleSet declarator
  capability, replaces that single binding with the (recursively expanded) flat binding
  list obtained by invoking the sub-container's own declarator.  Non-embedded bindings pass
  through unchanged."  Which field a binding targets is what tag resolution (4.2) finds.
\<close>

definition container_of :: "gval \<Rightarrow> (gval \<times> bool) option" where
  "container_of v =
     (case v of
        VStruct t fs \<Rightarrow> Some (v, False)
      | VPtr t (Some (a, VStruct t' fs)) \<Rightarrow> Some (VStruct t' fs, True)
      | _ \<Rightarrow> None)"

definition targets_embedded :: "gval \<Rightarrow> FieldRules \<Rightarrow> bool outcome" where
  "targets_embedded container binding =
     (case container_of container of
        None \<Rightarrow> Return False
      | Some (c, ad) \<Rightarrow>
          if Kind (fieldPtr binding) = KPtr then
            obind (findStructField ad c (fieldPtr binding))
              (\<lambda>sf. Return (case sf of Some f \<Rightarrow> Anonymous f | None \<Rightarrow> False))
          else Return False)"

fun ExpandFields :: "nat \<Rightarrow> env \<Rightarrow> ctx \<Rightarrow> gval \<Rightarrow> FieldRules list \<Rightarrow> FieldRules list outcome" where
  "ExpandFields n E ctx container [] = Return []"
| "ExpandFields n E ctx container (binding # bindings) =
     obind (targets_embedded container binding) (\<lambda>embedded.
       obind
         (case (if embedded then call_Rules E ctx (fieldPtr binding) else None) of
            Some declared \<Rightarrow>
              (case n of
                 0 \<Rightarrow> OutOfFuel
               | Suc m \<Rightarrow> ExpandFields m E ctx (fieldPtr binding) declared)
          | None \<Rightarrow> Return [binding])
         (\<lambda>replacement.
            obind (ExpandFields n E ctx container bindings)
              (\<lambda>rest. Return (replacement @ rest))))"
section \<open>The loop of expandFields, step by step\<close>

text \<open>What one pass of the loop of expandFields finds for the binding \<open>fr\<close>: the expanded
  rules of the embedded struct that it targets, or nothing.\<close>

definition expand_one ::
  "nat \<Rightarrow> env \<Rightarrow> ctx \<Rightarrow> Value \<Rightarrow> FieldRules \<Rightarrow> FieldRules list option outcome" where
  "expand_one n E ctx structVal fr =
             (let fv = fieldPtr fr in
                (if Kind fv = KPtr then
                   obind (findStructField (snd structVal \<noteq> None) (fst structVal) fv)
                     (\<lambda>sf. case sf of
                        Some sf' \<Rightarrow>
                          if Anonymous sf' then
                            (let embeddedPtr = Interface fv in
                             case method_of (Rules_method E) embeddedPtr of
                               Some (RulerM Rules) \<Rightarrow>
                                 (case n of
                                    0 \<Rightarrow> OutOfFuel
                                  | Suc m \<Rightarrow>
                                      obind (expandFields m E ctx embeddedPtr (Rules embeddedPtr))
                                        (\<lambda>xs. Return (Some xs)))
                             | Some (ContextRulerM Rules) \<Rightarrow>
                                 (case n of
                                    0 \<Rightarrow> OutOfFuel
                                  | Suc m \<Rightarrow>
                                      obind (expandFields m E ctx embeddedPtr (Rules ctx embeddedPtr))
                                        (\<lambda>xs. Return (Some xs)))
                             | None \<Rightarrow> Return None)
                          else Return None
                      | None \<Rightarrow> Return None)
                 else Return None))"

definition expand_step ::
  "nat \<Rightarrow> env \<Rightarrow> ctx \<Rightarrow> Value \<Rightarrow> FieldRules \<Rightarrow> FieldRules list outcome \<Rightarrow> FieldRules list outcome" where
  "expand_step n E ctx structVal fr acc =
     obind acc (\<lambda>result.
       obind (expand_one n E ctx structVal fr)
         (\<lambda>expanded. case expanded of
                   Some xs \<Rightarrow> Return (result @ xs)
                 | None \<Rightarrow> Return (result @ [fr])))"

text \<open>What findStructField does with one field, the fields before it in the loop having
  given \<open>found\<close>.\<close>

definition find_step :: "bool \<Rightarrow> gval \<Rightarrow> StructField \<times> addr \<times> gval \<Rightarrow> StructField option outcome \<Rightarrow> StructField option outcome" where
  "find_step ad fieldValue = (\<lambda>(sf, a, fi) found.
         case found of
           Return None \<Rightarrow>
             if \<not> ad then Panic
             else
               obind (if Pointer fieldValue = a
                      then obind (ElemType fieldValue) (\<lambda>et. Return (Type sf = et))
                      else Return False)
                 (\<lambda>same.
                    if same then Return (Some sf)
                    else if Anonymous sf then
                      (if TypeKind (Type sf) = KPtr then
                         (case fi of
                            VPtr _ (Some (b, target)) \<Rightarrow>
                              if Kind target = KStruct then findStructField True target fieldValue
                              else Return None
                          | _ \<Rightarrow> Return None)
                       else if Kind fi = KStruct then findStructField ad fi fieldValue
                       else Return None)
                    else Return None)
         | other \<Rightarrow> other)"


section \<open>The validation traversal\<close>

text \<open>
  go-ozzo's ValidateStruct and Validate are not part of the repository; they are modelled
  after go-ozzo's source (version 4).  Its findStructField is the function of the same name
  above, which this package copied.  The rules that this package hands to go-ozzo are its
  own rules and, last in every list, the rulerBridge.
\<close>

datatype vrule = PkgRule rule | rulerBridge ctx

record vFieldRules =
  vfieldPtr :: gval
  vrules :: "vrule list"

type_synonym core = "ctx \<Rightarrow> gval \<Rightarrow> verr option outcome"

text \<open>reflect.StructTag.Get, and the part of a string before the first comma
  (\<^verbatim>\<open>strings.Split(s, ",")[0]\<close>).\<close>

definition Tag_Get :: "StructField \<Rightarrow> string \<Rightarrow> string" where
  "Tag_Get f key = (case map_of (Tag f) key of Some v \<Rightarrow> v | None \<Rightarrow> [])"

definition before_comma :: "string \<Rightarrow> string" where
  "before_comma s = takeWhile (\<lambda>c. c \<noteq> CHR '','') s"

text \<open>go-ozzo's getErrorFieldName: the name in the json tag, or else the name of the field.\<close>

definition getErrorFieldName :: "StructField \<Rightarrow> string" where
  "getErrorFieldName f =
     (let tag = Tag_Get f ''json'' in
      if tag \<noteq> [] \<and> tag \<noteq> ''-'' \<and> before_comma tag \<noteq> [] then before_comma tag else Name f)"

text \<open>rulerBridge.Validate, with \<open>core\<close> for validateCore.\<close>

definition rulerBridge_Validate :: "core \<Rightarrow> ctx \<Rightarrow> gval \<Rightarrow> verr option outcome" where
  "rulerBridge_Validate core ctx value = (if value = VNil then Return None else core ctx value)"

definition vrule_Validate :: "core \<Rightarrow> env \<Rightarrow> vrule \<Rightarrow> gval \<Rightarrow> verr option outcome" where
  "vrule_Validate core E r value =
     (case r of
        PkgRule r' \<Rightarrow> Rule_Validate (Lib E) r' value
      | rulerBridge ctx \<Rightarrow> rulerBridge_Validate core ctx value)"

text \<open>The loop of go-ozzo's Validate: the first error ends it.  (None of the rules is
  go-ozzo's own skip rule, for which the loop has an exit.)\<close>

fun run_rules :: "core \<Rightarrow> env \<Rightarrow> gval \<Rightarrow> vrule list \<Rightarrow> verr option outcome" where
  "run_rules core E value [] = Return None"
| "run_rules core E value (r # rs) =
     obind (vrule_Validate core E r value)
       (\<lambda>err. case err of Some e \<Rightarrow> Return (Some e) | None \<Rightarrow> run_rules core E value rs)"

definition ozzo_Validate :: "core \<Rightarrow> env \<Rightarrow> gval \<Rightarrow> vrule list \<Rightarrow> verr option outcome" where
  "ozzo_Validate core E value rs =
     obind (run_rules core E value rs)
       (\<lambda>err. case err of
          Some e \<Rightarrow> Return (Some e)
        | None \<Rightarrow>
            if (Kind value = KPtr \<or> Kind value = KInterface) \<and> IsNil value then Return None
            else Return (Validatable E value))"

text \<open>The loop of go-ozzo's ValidateStruct over the field rules, \<open>i\<close> being the index of the
  next one and \<open>errs\<close> the map of the errors so far.\<close>

fun ValidateStruct_loop ::
  "core \<Rightarrow> env \<Rightarrow> Value \<Rightarrow> nat \<Rightarrow> vFieldRules list \<Rightarrow> (string \<times> verr) list \<Rightarrow> verr option outcome" where
  "ValidateStruct_loop core E value i [] errs =
     Return (if errs \<noteq> [] then Some (Errors errs) else None)"
| "ValidateStruct_loop core E value i (fr # frs) errs =
     (let fv = vfieldPtr fr in
      if Kind fv \<noteq> KPtr then
        Return (Some (InternalError (''field #'' @ nat_string i @ '' must be specified as a pointer'')))
      else
        obind (findStructField (snd value \<noteq> None) (fst value) fv)
          (\<lambda>ft. case ft of
             None \<Rightarrow>
               Return (Some (InternalError (''field #'' @ nat_string i @ '' cannot be found in the struct'')))
           | Some ft' \<Rightarrow>
               obind (ozzo_Validate core E (Interface (fst (Elem fv))) (vrules fr))
                 (\<lambda>err. case err of
                    None \<Rightarrow> ValidateStruct_loop core E value (Suc i) frs errs
                  | Some (InternalError m) \<Rightarrow> Return (Some (InternalError m))
                  | Some (Errors es) \<Rightarrow>
                      if Anonymous ft' then
                        ValidateStruct_loop core E value (Suc i) frs
                          (fold (\<lambda>(name, value) errs. AList.update name value errs) es errs)
                      else
                        ValidateStruct_loop core E value (Suc i) frs
                          (AList.update (getErrorFieldName ft') (Errors es) errs)
                  | Some (Err m) \<Rightarrow>
                      ValidateStruct_loop core E value (Suc i) frs
                        (AList.update (getErrorFieldName ft') (Err m) errs))))"

definition ozzo_ValidateStruct :: "core \<Rightarrow> env \<Rightarrow> gval \<Rightarrow> vFieldRules list \<Rightarrow> verr option outcome" where
  "ozzo_ValidateStruct core E structPtr vfs =
     (if Kind structPtr \<noteq> KPtr \<or> (\<not> IsNil structPtr \<and> Kind (fst (Elem structPtr)) \<noteq> KStruct) then
        Return (Some (InternalError ''only a pointer to a struct can be validated''))
      else if IsNil structPtr then Return None
      else ValidateStruct_loop core E (Elem structPtr) 0 vfs [])"

text \<open>convertFieldRules: the expanded bindings, each with the rulerBridge after its rules.\<close>

definition convertFieldRules ::
  "nat \<Rightarrow> env \<Rightarrow> ctx \<Rightarrow> gval \<Rightarrow> FieldRules list \<Rightarrow> vFieldRules list outcome" where
  "convertFieldRules n E ctx structPtr flds =
     obind (ExpandFields n E ctx structPtr flds)
       (\<lambda>flat. Return (map (\<lambda>fr.
          \<lparr>vfieldPtr = fieldPtr fr, vrules = map PkgRule (rules fr) @ [rulerBridge ctx]\<rparr>) flat))"

fun validateValueRules :: "library \<Rightarrow> gval \<Rightarrow> rule list \<Rightarrow> verr option outcome" where
  "validateValueRules L value [] = Return None"
| "validateValueRules L value (r # rs) =
     obind (Rule_Validate L r value)
       (\<lambda>err. case err of Some e \<Rightarrow> Return (Some e) | None \<Rightarrow> validateValueRules L value rs)"

text \<open>shouldAutoValidate: the pointer to a new value of a struct type has a method Rules,
  or the type is a collection of such.\<close>

fun shouldAutoValidate :: "env \<Rightarrow> gtype \<Rightarrow> bool" where
  "shouldAutoValidate E (TStruct n) = (Rules_method E (TPtr (TStruct n)) \<noteq> None)"
| "shouldAutoValidate E (TSlice _ t) = shouldAutoValidate E t"
| "shouldAutoValidate E (TArray _ _ t) = shouldAutoValidate E t"
| "shouldAutoValidate E (TMap _ _ t) = shouldAutoValidate E t"
| "shouldAutoValidate E _ = False"

definition validateElement :: "core \<Rightarrow> env \<Rightarrow> ctx \<Rightarrow> Value \<Rightarrow> verr option outcome" where
  "validateElement core E ctx v =
     (if (Kind (fst v) = KPtr \<or> Kind (fst v) = KInterface) \<and> IsNil (fst v) then Return None
      else
        let ptr = (case snd v of
                     Some a \<Rightarrow> Addr (fst v) a
                   | None \<Rightarrow> if Kind (fst v) = KStruct then New_copy E (fst v) else VNil)
        in
          if ptr \<noteq> VNil \<and> method_of (Rules_method E) (Interface ptr) \<noteq> None
          then core ctx (Interface ptr)
          else if Kind (fst v) = KSlice \<or> Kind (fst v) = KArray \<or> Kind (fst v) = KMap
          then core ctx (Interface (fst v))
          else Return None)"

text \<open>The loops of validateSlice and validateMap: \<open>errs\<close> is the map of the errors.\<close>

fun validateSlice_loop ::
  "core \<Rightarrow> env \<Rightarrow> ctx \<Rightarrow> nat \<Rightarrow> Value list \<Rightarrow> (string \<times> verr) list \<Rightarrow> verr option outcome" where
  "validateSlice_loop core E ctx i [] errs =
     Return (if errs \<noteq> [] then Some (Errors errs) else None)"
| "validateSlice_loop core E ctx i (v # vs) errs =
     obind (validateElement core E ctx v)
       (\<lambda>err. case err of
          Some e \<Rightarrow> validateSlice_loop core E ctx (Suc i) vs (AList.update (Itoa (int i)) e errs)
        | None \<Rightarrow> validateSlice_loop core E ctx (Suc i) vs errs)"

text \<open>The elements of a slice or an array as Index returns them: those of a slice are
  addressable, those of an array are if the array is.\<close>

fun Elements :: "Value \<Rightarrow> Value list" where
  "Elements (VSlice _ es, ad) = map (\<lambda>(a, e). (e, Some a)) es"
| "Elements (VArray _ es, ad) = map (\<lambda>(a, e). (e, if ad = None then None else Some a)) es"
| "Elements _ = []"

definition validateSlice :: "core \<Rightarrow> env \<Rightarrow> ctx \<Rightarrow> Value \<Rightarrow> verr option outcome" where
  "validateSlice core E ctx rv = validateSlice_loop core E ctx 0 (Elements rv) []"

fun validateMap_loop ::
  "core \<Rightarrow> env \<Rightarrow> ctx \<Rightarrow> (gval \<times> gval) list \<Rightarrow> (string \<times> verr) list \<Rightarrow> verr option outcome" where
  "validateMap_loop core E ctx [] errs =
     Return (if errs \<noteq> [] then Some (Errors errs) else None)"
| "validateMap_loop core E ctx ((key, val) # kvs) errs =
     obind (validateElement core E ctx (val, None))
       (\<lambda>err. case err of
          Some e \<Rightarrow>
            validateMap_loop core E ctx kvs (AList.update (Sprintf_v (Lib E) (Interface key)) e errs)
        | None \<Rightarrow> validateMap_loop core E ctx kvs errs)"

fun MapEntries :: "gval \<Rightarrow> (gval \<times> gval) list" where
  "MapEntries (VMap _ kvs) = kvs"
| "MapEntries _ = []"

definition validateMap :: "core \<Rightarrow> env \<Rightarrow> ctx \<Rightarrow> Value \<Rightarrow> verr option outcome" where
  "validateMap core E ctx rv = validateMap_loop core E ctx (MapEntries (fst rv)) []"

text \<open>
  validateCore.  A type has one method Rules, so the two type assertions, to Ruler and to
  ContextRuler, are the two cases of \<open>call_Rules\<close>.  Every nested call of validateCore takes
  one unit of fuel.
\<close>

fun validateCore :: "nat \<Rightarrow> env \<Rightarrow> ctx \<Rightarrow> gval \<Rightarrow> verr option outcome" where
  "validateCore 0 E ctx value = OutOfFuel"
| "validateCore (Suc n) E ctx value =
     (if Kind value = KPtr \<and> IsNil value then Return None
      else
        case call_Rules E ctx value of
          Some flds \<Rightarrow>
            obind (convertFieldRules n E ctx value flds)
              (\<lambda>vfs. ozzo_ValidateStruct (validateCore n E) E value vfs)
        | None \<Rightarrow>
            (case (if Kind value = KStruct
                   then (let pi = New_copy E value in
                         case call_Rules E ctx pi of Some flds \<Rightarrow> Some (pi, flds) | None \<Rightarrow> None)
                   else None) of
               Some (pi, flds) \<Rightarrow>
                 obind (convertFieldRules n E ctx pi flds)
                   (\<lambda>vfs. ozzo_ValidateStruct (validateCore n E) E pi vfs)
             | None \<Rightarrow>
                 (case method_of (ValueRules_method E) value of
                    Some ValueRules \<Rightarrow> validateValueRules (Lib E) value (ValueRules value)
                  | None \<Rightarrow>
                      if (Kind value = KPtr \<or> Kind value = KInterface) \<and> IsNil value then Return None
                      else
                        let rv = Indirect (value, None) in
                        if Kind (fst rv) = KMap then
                          (case Option.bind (TypeOf (fst rv)) TypeElem of
                             Some et \<Rightarrow>
                               if shouldAutoValidate E et then validateMap (validateCore n E) E ctx rv
                               else Return None
                           | None \<Rightarrow> Panic)
                        else if Kind (fst rv) = KSlice \<or> Kind (fst rv) = KArray then
                          (case Option.bind (TypeOf (fst rv)) TypeElem of
                             Some et \<Rightarrow>
                               if shouldAutoValidate E et then validateSlice (validateCore n E) E ctx rv
                               else Return None
                           | None \<Rightarrow> Panic)
                        else if Kind (fst rv) = KPtr \<or> Kind (fst rv) = KInterface then
                          (if Kind (fst (Elem (fst rv))) = KInvalid then Panic
                           else validateCore n E ctx (Interface (fst (Elem (fst rv)))))
                        else Return None)))"


definition ValidateCtx :: "nat \<Rightarrow> env \<Rightarrow> ctx \<Rightarrow> gval \<Rightarrow> verr option outcome" where
  "ValidateCtx n E ctx value = validateCore n E ctx value"
section \<open>The keys of an aggregated error\<close>


text \<open>What the loops of validateSlice and validateMap do with the outcome \<open>r\<close> of the
  element under the key \<open>k\<close>, and the errors among the outcomes of the elements.\<close>

definition store_error :: "string \<times> verr option \<Rightarrow> (string \<times> verr) list \<Rightarrow> (string \<times> verr) list" where
  "store_error = (\<lambda>(k, r) errs. case r of Some e \<Rightarrow> AList.update k e errs | None \<Rightarrow> errs)"

definition failures :: "(string \<times> verr option) list \<Rightarrow> (string \<times> verr) list" where
  "failures krs = concat (map (\<lambda>(k, r). case r of Some e \<Rightarrow> [(k, e)] | None \<Rightarrow> []) krs)"


section \<open>Schema synthesis\<close>

text \<open>indirect: pointers are followed until the value is not a pointer.\<close>

fun indirect :: "gval \<Rightarrow> Value" where
  "indirect (VPtr t (Some (a, v))) = (if Kind v = KPtr then indirect v else (v, Some a))"
| "indirect (VPtr t None) = (VNil, None)"
| "indirect v = (v, None)"

text \<open>titleFirst: the first byte in upper case.  strings.ToUpper turns a byte that is not
  ASCII, which alone is not valid UTF-8, into the replacement character.\<close>

definition ToUpper_byte :: "char \<Rightarrow> string" where
  "ToUpper_byte c =
     (let n = (of_char c :: nat) in
      if 97 \<le> n \<and> n \<le> 122 then [char_of (n - 32)]
      else if n < 128 then [c]
      else [CHR 0xEF, CHR 0xBF, CHR 0xBD])"

definition titleFirst :: "string \<Rightarrow> string" where
  "titleFirst s = (case s of [] \<Rightarrow> s | c # cs \<Rightarrow> ToUpper_byte c @ cs)"

text \<open>getRulesForType: the rules of a new zero value of the type, under the background
  context; the instance is nil when the type has no method Rules.\<close>

definition getRulesForType :: "env \<Rightarrow> gtype \<Rightarrow> (gval \<times> FieldRules list) option" where
  "getRulesForType E t =
     (let inst = New E t in
      case call_Rules E Background inst of
        Some flds \<Rightarrow> Some (inst, flds)
      | None \<Rightarrow> None)"

text \<open>removeSkippedFields: the properties of the fields tagged \<open>docs:"skip"\<close> are deleted,
  in the embedded structs too.\<close>

fun removeSkippedFields :: "gval \<Rightarrow> (string \<times> addr) list \<Rightarrow> (string \<times> addr) list" where
  "removeSkippedFields (VStruct t fs) props =
     fold (\<lambda>(sf, a, fi) props.
         if Anonymous sf then
           (if TypeKind (Type sf) = KPtr then
              (case fi of
                 VPtr _ (Some (b, target)) \<Rightarrow>
                   if Kind target = KStruct then removeSkippedFields target props else props
               | _ \<Rightarrow> props)
            else if Kind fi = KStruct then removeSkippedFields fi props
            else props)
         else if before_comma (Tag_Get sf ''docs'') \<noteq> ''skip'' then props
         else AList.delete (before_comma (Tag_Get sf ''json'')) props)
       fs props"
| "removeSkippedFields v props = props"

text \<open>The name of a kind, as \<open>%s\<close> prints it.\<close>

fun KindString :: "kind \<Rightarrow> string" where
  "KindString KInvalid = ''invalid''"
| "KindString KBool = ''bool''"
| "KindString KInt = ''int''"
| "KindString KUint = ''uint''"
| "KindString KFloat = ''float64''"
| "KindString KString = ''string''"
| "KindString KPtr = ''ptr''"
| "KindString KInterface = ''interface''"
| "KindString KStruct = ''struct''"
| "KindString KSlice = ''slice''"
| "KindString KArray = ''array''"
| "KindString KMap = ''map''"

text \<open>
  mapFieldsToTags: each binding gets the tag of the field that its pointer resolves to.
  The function writes the tags into the bindings; it returns at the first binding that
  is not a pointer or does not resolve.  The result is the error and the bindings after
  the call.
\<close>

fun mapFieldsToTags_loop ::
  "Value \<Rightarrow> nat \<Rightarrow> FieldRules list \<Rightarrow> (verr option \<times> FieldRules list) outcome" where
  "mapFieldsToTags_loop structVal i [] = Return (None, [])"
| "mapFieldsToTags_loop structVal i (fr # frs) =
     (let fv = fieldPtr fr in
      if Kind fv \<noteq> KPtr then
        Return (Some (Err (''rule target for field index '' @ nat_string i
                  @ '' must be a pointer, got '' @ KindString (Kind fv))), fr # frs)
      else
        obind (findStructField (snd structVal \<noteq> None) (fst structVal) fv)
          (\<lambda>sf. case sf of
             None \<Rightarrow>
               Return (Some (Err (''rule target for field index '' @ nat_string i
                  @ '' not found in struct '' @ Sprintf_T (fst structVal))), fr # frs)
           | Some sf' \<Rightarrow>
               obind (mapFieldsToTags_loop structVal (Suc i) frs)
                 (\<lambda>(err, frs').
                    Return (err,
                      fr\<lparr>tag := (if Anonymous sf' then [] else before_comma (Tag_Get sf' ''json''))\<rparr>
                        # frs'))))"

definition mapFieldsToTags ::
  "FieldRules list \<Rightarrow> Value \<Rightarrow> (verr option \<times> FieldRules list) outcome" where
  "mapFieldsToTags flds structVal = mapFieldsToTags_loop structVal 0 flds"

text \<open>applyRulesToSchema: for every property, the rules of the bindings with its tag
  describe themselves on it; the first error ends the call.\<close>

fun applyRules_fields ::
  "FieldRules list \<Rightarrow> string \<Rightarrow> addr \<Rightarrow> addr \<Rightarrow> store \<Rightarrow> (verr option \<times> store) outcome" where
  "applyRules_fields [] k schema propRef st = Return (None, st)"
| "applyRules_fields (f # fs) k schema propRef st =
     (if tag f \<noteq> k then applyRules_fields fs k schema propRef st
      else
        obind (Describe_all (rules f) k schema propRef st)
          (\<lambda>(err, st1). case err of
             Some e \<Rightarrow> Return (Some e, st1)
           | None \<Rightarrow> applyRules_fields fs k schema propRef st1))"

fun applyRules_props ::
  "FieldRules list \<Rightarrow> (string \<times> addr) list \<Rightarrow> addr \<Rightarrow> store \<Rightarrow> (verr option \<times> store) outcome" where
  "applyRules_props flds [] schema st = Return (None, st)"
| "applyRules_props flds ((k, propRef) # props) schema st =
     obind (applyRules_fields flds k schema propRef st)
       (\<lambda>(err, st1). case err of
          Some e \<Rightarrow> Return (Some e, st1)
        | None \<Rightarrow> applyRules_props flds props schema st1)"

definition applyRulesToSchema ::
  "FieldRules list \<Rightarrow> addr \<Rightarrow> store \<Rightarrow> (verr option \<times> store) outcome" where
  "applyRulesToSchema flds schema st = applyRules_props flds (Properties (st schema)) schema st"

text \<open>applyValueRulerSchema: the rules of a type with a method ValueRules describe
  themselves on the schema itself, which is also the target of \<open>ref\<close>.\<close>

definition applyValueRulerSchema ::
  "env \<Rightarrow> gtype \<Rightarrow> string \<Rightarrow> addr \<Rightarrow> store \<Rightarrow> (verr option \<times> store) outcome" where
  "applyValueRulerSchema E t name schema st =
     (let inst = New E t in
      case method_of (ValueRules_method E) inst of
        None \<Rightarrow> Return (None, st)
      | Some ValueRules \<Rightarrow> Describe_all (ValueRules inst) name schema schema st)"

text \<open>
  The generator of kin-openapi is not part of the repository.  \<open>FieldByName\<close> is
  reflect's lookup of a field by its name.  \<open>gen v\<close> is what
  \<^verbatim>\<open>NewSchemaRefForValue(v, nil)\<close> returns under the customizer \<^verbatim>\<open>schemaDoc(nil)\<close>: an error or a
  schema.  \<open>build v\<close> is what the generator has built for the type of \<open>v\<close> when it comes to
  call the customizer for that type, under the name \<^verbatim>\<open>_root\<close>, the last thing it does: an
  error from the customizer calls for the parts of the type, or the address of the
  schema and the store.  The generator returns the error of the customizer.
\<close>

record generator =
  FieldByName :: "gval \<Rightarrow> string \<Rightarrow> gval option"
  gen :: "gval \<Rightarrow> verr + Schema"
  build :: "gval \<Rightarrow> verr + (addr \<times> store)"

text \<open>The customizer that schemaDoc returns.\<close>

definition schemaDoc ::
  "nat \<Rightarrow> generator \<Rightarrow> env \<Rightarrow> gval \<Rightarrow> string \<Rightarrow> gtype \<Rightarrow> addr \<Rightarrow> store
     \<Rightarrow> (verr option \<times> store) outcome" where
  "schemaDoc n G E value name t schema st =
     (case (if value \<noteq> VNil \<and> Kind (fst (indirect value)) = KStruct
            then (case FieldByName G (fst (indirect value)) (titleFirst name) of
                    Some fn \<Rightarrow>
                      if Kind fn = KInterface \<and> Kind (fst (Elem fn)) \<noteq> KInvalid
                         \<and> Kind (fst (Elem fn)) \<noteq> KInterface
                      then Some (gen G (Interface (fst (Elem fn))))
                      else None
                  | None \<Rightarrow> None)
            else None) of
        Some (Inl err) \<Rightarrow> Return (Some err, st)
      | Some (Inr generated) \<Rightarrow> Return (None, st(schema := generated))
      | None \<Rightarrow>
          (case getRulesForType E t of
             None \<Rightarrow> applyValueRulerSchema E t name schema st
           | Some (vi, flds) \<Rightarrow>
               let structVal = indirect vi in
               obind (expandFields n E Background vi flds)
                 (\<lambda>flds1.
                    let st1 = st(schema := (st schema)
                                \<lparr>Properties := removeSkippedFields (fst structVal) (Properties (st schema))\<rparr>)
                    in obind (mapFieldsToTags flds1 structVal)
                         (\<lambda>(err, flds2). case err of
                            Some e \<Rightarrow> Return (Some e, st1)
                          | None \<Rightarrow> applyRulesToSchema flds2 schema st1))))"

text \<open>The type that the generator hands to the customizer for a value: pointer types are
  replaced by the type they point to.\<close>

fun root_type :: "gtype \<Rightarrow> gtype" where
  "root_type (TPtr t) = root_type t"
| "root_type t = t"

definition newSchemaRefForValue ::
  "nat \<Rightarrow> generator \<Rightarrow> env \<Rightarrow> gval \<Rightarrow> (verr + Schema) outcome" where
  "newSchemaRefForValue n G E value =
     (case build G value of
        Inl err \<Rightarrow> Return (Inl err)
      | Inr (schema, st) \<Rightarrow>
          (case TypeOf value of
             None \<Rightarrow> Panic
           | Some t \<Rightarrow>
               obind (schemaDoc n G E value ''_root'' (root_type t) schema st)
                 (\<lambda>(err, st1). case err of
                    Some e \<Rightarrow> Return (Inl e)
                  | None \<Rightarrow> Return (Inr (st1 schema)))))"

text \<open>NewRequest: the schemas of the values, or the first error.\<close>

fun NewRequest_loop ::
  "nat \<Rightarrow> generator \<Rightarrow> env \<Rightarrow> gval list \<Rightarrow> Schema list \<Rightarrow> (verr + Schema list) outcome" where
  "NewRequest_loop n G E [] oneOf = Return (Inr oneOf)"
| "NewRequest_loop n G E (v # vs) oneOf =
     obind (newSchemaRefForValue n G E v)
       (\<lambda>r. case r of
          Inl err \<Rightarrow> Return (Inl err)
        | Inr schema \<Rightarrow> NewRequest_loop n G E vs (oneOf @ [schema]))"

definition NewRequest :: "nat \<Rightarrow> generator \<Rightarrow> env \<Rightarrow> gval list \<Rightarrow> (verr + Schema list) outcome" where
  "NewRequest n G E vs =
     (if vs = [] then Return (Inl (Err ''no values given''))
      else NewRequest_loop n G E vs [])"

section \<open>A program for the worked examples\<close>

text \<open>
  The types of the examples follow the test suite of the package: \<open>valBase\<close> with the
  field \<open>ID\<close>, \<open>valWithEmbed\<close>, which embeds \<open>valBase\<close> and adds the field \<open>Value\<close>, and
  \<open>valChild\<close> with the field \<open>Name\<close>; their methods Rules have pointer receivers and
  require every field.  \<open>order\<close> and \<open>address\<close> have normalization hooks: that of \<open>*address\<close>
  puts the city in upper case, that of \<open>*order\<close> trims the name.
\<close>

definition str :: "string \<Rightarrow> gval" where
  "str s = VBasic SString ''string'' (BString s)"

definition fld :: "string \<Rightarrow> gtype \<Rightarrow> StructField" where
  "fld n t = \<lparr>Name = n, PkgPath = [], Type = t, Anonymous = False, Tag = []\<rparr>"

definition embedded_fld :: "string \<Rightarrow> gtype \<Rightarrow> StructField" where
  "embedded_fld n t = \<lparr>Name = n, PkgPath = ''apivalidation_test'', Type = t, Anonymous = True, Tag = []\<rparr>"

text \<open>\<open>&s.F\<close>, for the field number \<open>i\<close> of the struct that \<open>s\<close> points to.\<close>

fun FieldAddr :: "gval \<Rightarrow> nat \<Rightarrow> gval" where
  "FieldAddr (VPtr _ (Some (a, VStruct t fs))) i =
     (if i < length fs
      then (case fs ! i of (sf, fa, fv) \<Rightarrow> VPtr (TPtr (Type sf)) (Some (fa, fv)))
      else VNil)"
| "FieldAddr _ i = VNil"

definition valBase :: "addr \<Rightarrow> string \<Rightarrow> gval" where
  "valBase b id' = VStruct (TStruct ''valBase'') [(fld ''ID'' (TBasic SString ''string''), b, str id')]"

definition valWithEmbed :: "addr \<Rightarrow> string \<Rightarrow> string \<Rightarrow> gval" where
  "valWithEmbed b id' v =
     VStruct (TStruct ''valWithEmbed'')
       [(embedded_fld ''valBase'' (TStruct ''valBase''), b, valBase b id'),
        (fld ''Value'' (TBasic SString ''string''), b + 16, str v)]"

definition valChild :: "addr \<Rightarrow> string \<Rightarrow> gval" where
  "valChild b n = VStruct (TStruct ''valChild'') [(fld ''Name'' (TBasic SString ''string''), b, str n)]"

definition ptr_to :: "addr \<Rightarrow> gval \<Rightarrow> gval" where
  "ptr_to a v = Addr v a"

definition valBase_Rules :: "gval \<Rightarrow> FieldRules list" where
  "valBase_Rules b = [Field (FieldAddr b 0) [Required_rule]]"

definition valWithEmbed_Rules :: "gval \<Rightarrow> FieldRules list" where
  "valWithEmbed_Rules w = [Field (FieldAddr w 0) [], Field (FieldAddr w 1) [Required_rule]]"

definition valChild_Rules :: "gval \<Rightarrow> FieldRules list" where
  "valChild_Rules c = [Field (FieldAddr c 0) [Required_rule]]"

definition exampleRules :: "gtype \<Rightarrow> rules_method option" where
  "exampleRules t =
     (if t = TPtr (TStruct ''valBase'') then Some (RulerM valBase_Rules)
      else if t = TPtr (TStruct ''valWithEmbed'') then Some (RulerM valWithEmbed_Rules)
      else if t = TPtr (TStruct ''valChild'') then Some (RulerM valChild_Rules)
      else None)"

text \<open>The hooks: a method with a pointer receiver changes the struct it points to.\<close>

fun update_field :: "nat \<Rightarrow> (string \<Rightarrow> string) \<Rightarrow> gval \<Rightarrow> gval" where
  "update_field i f (VPtr pt (Some (a, VStruct t fs))) =
     VPtr pt (Some (a, VStruct t
       (map (\<lambda>(j, (sf, fa, fv)).
          (sf, fa, if j = i then (case fv of VBasic k n (BString s) \<Rightarrow> VBasic k n (BString (f s)) | _ \<Rightarrow> fv)
                   else fv))
        (zip [0..<length fs] fs))))"
| "update_field i f v = v"

definition upper :: "string \<Rightarrow> string" where
  "upper s = concat (map ToUpper_byte s)"

definition exampleNormalize :: "gtype \<Rightarrow> normalize_method option" where
  "exampleNormalize t =
     (if t = TPtr (TStruct ''address'') then Some (NormalizerM (update_field 0 upper))
      else if t = TPtr (TStruct ''order'') then Some (NormalizerM (update_field 0 TrimSpace))
      else None)"

definition address :: "addr \<Rightarrow> string \<Rightarrow> gval" where
  "address b city = VStruct (TStruct ''address'') [(fld ''City'' (TBasic SString ''string''), b, str city)]"

definition order :: "addr \<Rightarrow> string \<Rightarrow> (addr \<times> gval) list \<Rightarrow> (gval \<times> gval) list \<Rightarrow> (gval \<times> gval) list \<Rightarrow> gval" where
  "order b n addresses byName refs =
     VStruct (TStruct ''order'')
       [(fld ''Name'' (TBasic SString ''string''), b, str n),
        (fld ''Addresses'' (TSlice [] (TStruct ''address'')), b + 16,
           VSlice (TSlice [] (TStruct ''address'')) addresses),
        (fld ''ByName'' (TMap [] (TBasic SString ''string'') (TStruct ''address'')), b + 40,
           VMap (TMap [] (TBasic SString ''string'') (TStruct ''address'')) byName),
        (fld ''Refs'' (TMap [] (TBasic SString ''string'') (TPtr (TStruct ''address''))), b + 48,
           VMap (TMap [] (TBasic SString ''string'') (TPtr (TStruct ''address''))) refs)]"

text \<open>The allocator of the examples puts every fresh variable at the same address, a
  struct with its fields 16 bytes apart, an embedded struct first.\<close>

fun place_flat :: "addr \<Rightarrow> gval \<Rightarrow> gval" where
  "place_flat b (VStruct t fs) =
     VStruct t (map (\<lambda>(j, (sf, fa, fv)). (sf, b + 16 * j, fv)) (zip [0..<length fs] fs))"
| "place_flat b v = v"

fun place :: "addr \<Rightarrow> gval \<Rightarrow> gval" where
  "place b (VStruct t fs) =
     VStruct t (map (\<lambda>(j, (sf, fa, fv)). (sf, b + 16 * j, if j = 0 then place_flat b fv else fv))
                  (zip [0..<length fs] fs))"
| "place b v = v"

definition exampleZero :: "gtype \<Rightarrow> gval" where
  "exampleZero t =
     (if t = TStruct ''valBase'' then valBase 0 []
      else if t = TStruct ''valWithEmbed'' then valWithEmbed 0 [] []
      else if t = TStruct ''valChild'' then valChild 0 []
      else if t = TBasic SString ''string'' then str []
      else VNil)"

definition exampleEnv :: env where
  "exampleEnv =
     \<lparr>Rules_method = exampleRules,
      ValueRules_method = (\<lambda>t. None),
      Normalize_method = exampleNormalize,
      Validatable = (\<lambda>v. None),
      New = (\<lambda>t. VPtr (TPtr t) (Some (8192, place 8192 (exampleZero t)))),
      Alloc = (\<lambda>v. (4096, place 4096 v)),
      Lib = exampleLibrary\<rparr>"

text \<open>An order before and after normalization.\<close>

definition exampleOrder :: gval where
  "exampleOrder =
     ptr_to 100 (order 100 ''  o  '' [(200, address 200 ''seattle'')]
       [(str ''home'', address 0 ''rome'')] [(str ''work'', ptr_to 300 (address 300 ''oslo''))])"

definition exampleOrderNormalized :: gval where
  "exampleOrderNormalized =
     ptr_to 100 (order 100 ''o'' [(200, address 200 ''SEATTLE'')]
       [(str ''home'', address 4096 ''ROME'')] [(str ''work'', ptr_to 300 (address 300 ''oslo''))])"



section \<open>Properties\<close>


subsection \<open>Outcomes and kinds\<close>

lemma obind_Return_left [simp]: "obind (Return x) f = f x"
  by (simp add: obind_def)

lemma obind_Panic [simp]: "obind Panic f = Panic"
  by (simp add: obind_def)

lemma obind_OutOfFuel [simp]: "obind OutOfFuel f = OutOfFuel"
  by (simp add: obind_def)

lemma obind_Return_right [simp]: "obind m Return = m"
  by (cases m) simp_all


lemma obind_Return:
  "(obind m f = Return y) = (\<exists>x. m = Return x \<and> f x = Return y)"
  by (cases m) simp_all

lemma ScalarKind_simps [simp]:
  "ScalarKind k \<noteq> KStruct" "ScalarKind k \<noteq> KPtr" "ScalarKind k \<noteq> KInterface"
  "ScalarKind k \<noteq> KSlice" "ScalarKind k \<noteq> KArray" "ScalarKind k \<noteq> KMap"
  "ScalarKind k \<noteq> KInvalid"
  by (cases k; simp)+

lemma Kind_struct_iff: "(Kind v = KStruct) = (\<exists>t fs. v = VStruct t fs)"
  by (cases v) simp_all

lemma Kind_ptr_iff: "(Kind v = KPtr) = (\<exists>t tgt. v = VPtr t tgt)"
  by (cases v) simp_all

subsection \<open>The expansion of embedded rules\<close>






lemma expand_step_Panic [simp]: "expand_step n E ctx sv fr Panic = Panic"
  by (simp add: expand_step_def)

lemma expand_step_OutOfFuel [simp]: "expand_step n E ctx sv fr OutOfFuel = OutOfFuel"
  by (simp add: expand_step_def)

lemma fold_step_Panic [simp]: "fold (expand_step n E ctx sv) flds Panic = Panic"
  by (induction flds) simp_all

lemma fold_step_OutOfFuel [simp]: "fold (expand_step n E ctx sv) flds OutOfFuel = OutOfFuel"
  by (induction flds) simp_all






lemma find_step_found [simp]: "find_step ad p x (Return (Some f)) = Return (Some f)"
  by (cases x) (simp add: find_step_def)







subsection \<open>The keys of the errors of a struct\<close>












lemma embed_find_id: "findStructField True (valWithEmbed 100 [] ''hello'') (ptr_to 100 (str []))
   = Return (Some (fld ''ID'' (TBasic SString ''string'')))"
  by code_simp









subsection \<open>The keys of the errors of a collection\<close>

text \<open>strconv.Itoa is injective: ParseUint reads the number back.\<close>

lemma digit_value_digit_char: "d < 10 \<Longrightarrow> digit_value (digit_char d) = Some d"
  by (simp add: digit_value_def digit_char_def Let_def)

lemma parse_digits_snoc:
  "parse_digits acc (xs @ [c]) =
     (case parse_digits acc xs of
        None \<Rightarrow> None
      | Some m \<Rightarrow> (case digit_value c of None \<Rightarrow> None | Some d \<Rightarrow> Some (10 * m + d)))"
  by (induction xs arbitrary: acc) (simp_all split: option.splits)

lemma parse_nat_string: "parse_digits 0 (nat_string n) = Some n"
proof (induction n rule: nat_string.induct)
  case (1 n)
  show ?case
  proof (cases "n < 10")
    case True
    then show ?thesis
      by (subst nat_string.simps) (simp add: digit_value_digit_char)
  next
    case False
    with 1 have "parse_digits 0 (nat_string (n div 10)) = Some (n div 10)" by simp
    with False show ?thesis
      by (subst nat_string.simps) (simp add: parse_digits_snoc digit_value_digit_char)
  qed
qed

lemma nat_string_inj: "nat_string m = nat_string n \<Longrightarrow> m = n"
  by (metis option.inject parse_nat_string)

lemma Itoa_nat_inj: "Itoa (int i) = Itoa (int j) \<Longrightarrow> i = j"
  by (simp add: Itoa_def nat_string_inj)

lemma map_of_store:
  "map_of (fold store_error krs errs) = map_of (rev (failures krs) @ errs)"
proof (induction krs arbitrary: errs)
  case Nil
  show ?case by (simp add: failures_def)
next
  case (Cons kr krs)
  obtain k r where kr: "kr = (k, r)" by (cases kr)
  show ?case
  proof (cases r)
    case None
    with kr Cons.IH [of errs] show ?thesis by (simp add: store_error_def failures_def)
  next
    case (Some e)
    have "map_of (fold store_error krs (AList.update k e errs))
        = map_of (rev (failures krs) @ AList.update k e errs)" by (rule Cons.IH)
    also have "\<dots> = map_of (rev (failures krs) @ (k, e) # errs)"
      by (simp add: update_conv')
    finally show ?thesis using kr Some by (simp add: store_error_def failures_def)
  qed
qed

lemma store_empty: "(fold store_error krs errs = []) = (errs = [] \<and> failures krs = [])"
proof (induction krs arbitrary: errs)
  case Nil
  show ?case by (simp add: failures_def)
next
  case (Cons kr krs)
  obtain k r where kr: "kr = (k, r)" by (cases kr)
  have ne: "\<And>e. AList.update k e errs \<noteq> []" by (cases errs) auto
  show ?case
    using Cons.IH kr ne by (cases r) (auto simp add: store_error_def failures_def)
qed

lemma validateSlice_loop_fold:
  "map (validateElement core E ctx) vs = map Return rs \<Longrightarrow>
   validateSlice_loop core E ctx i vs errs =
     Return (let es = fold store_error
                        (zip (map (\<lambda>jv. Itoa (int (fst jv))) (List.enumerate i vs)) rs) errs
             in if es \<noteq> [] then Some (Errors es) else None)"
proof (induction vs arbitrary: i errs rs)
  case Nil
  then show ?case by simp
next
  case (Cons v vs)
  then obtain r rs' where rs: "rs = r # rs'" and r: "validateElement core E ctx v = Return r"
    and rest: "map (validateElement core E ctx) vs = map Return rs'"
    by (cases rs) auto
  show ?case
    using Cons.IH [OF rest, of "Suc i"] r
    by (cases r) (simp_all add: rs store_error_def)
qed

lemma validateMap_loop_fold:
  "map (\<lambda>kv. validateElement core E ctx (snd kv, None)) kvs = map Return rs \<Longrightarrow>
   validateMap_loop core E ctx kvs errs =
     Return (let es = fold store_error (zip (map (\<lambda>kv. Sprintf_v (Lib E) (Interface (fst kv))) kvs) rs) errs
             in if es \<noteq> [] then Some (Errors es) else None)"
proof (induction kvs arbitrary: errs rs)
  case Nil
  then show ?case by simp
next
  case (Cons kv kvs)
  obtain k v where kv: "kv = (k, v)" by (cases kv)
  from Cons.prems obtain r rs' where rs: "rs = r # rs'"
    and r: "validateElement core E ctx (v, None) = Return r"
    and rest: "map (\<lambda>kv. validateElement core E ctx (snd kv, None)) kvs = map Return rs'"
    by (cases rs) (auto simp add: kv)
  show ?case
    using Cons.IH [OF rest] r
    by (cases r) (simp_all add: rs kv store_error_def)
qed

lemma set_failures: "set (failures krs) = {(k, e). (k, Some e) \<in> set krs}"
  by (induction krs) (auto simp add: failures_def split: option.splits)

lemma distinct_failures: "distinct (map fst krs) \<Longrightarrow> distinct (map fst (failures krs))"
proof (induction krs)
  case Nil
  show ?case by (simp add: failures_def)
next
  case (Cons kr krs)
  obtain k r where kr: "kr = (k, r)" by (cases kr)
  have f: "failures (kr # krs) = (case r of Some e \<Rightarrow> [(k, e)] | None \<Rightarrow> []) @ failures krs"
    by (simp add: failures_def kr)
  from Cons.prems kr have "k \<notin> fst ` set krs" by simp
  then have "k \<notin> fst ` set (failures krs)"
    by (force simp add: set_failures)
  with Cons show ?case
    by (cases r) (simp_all add: f)
qed

text \<open>The map of the errors holds, for every key, the last error stored under it.\<close>

lemma stored_key:
  "(map_of (fold store_error krs []) k \<noteq> None) = (\<exists>e. (k, Some e) \<in> set krs)"
proof -
  have "(map_of (fold store_error krs []) k \<noteq> None) = (k \<in> fst ` set (rev (failures krs)))"
    by (simp add: map_of_store map_of_eq_None_iff)
  then show ?thesis by (force simp add: set_failures)
qed

lemma stored_distinct:
  assumes d: "distinct (map fst krs)" and m: "(k, r) \<in> set krs"
  shows "map_of (fold store_error krs []) k = r"
proof (cases r)
  case None
  have "\<not> (\<exists>e. (k, Some e) \<in> set krs)"
  proof
    assume "\<exists>e. (k, Some e) \<in> set krs"
    then obtain e where "(k, Some e) \<in> set krs" ..
    with d m have "r = Some e" by (meson eq_key_imp_eq_value)
    with None show False by simp
  qed
  with None show ?thesis using stored_key [of krs k] by simp
next
  case (Some e)
  with m have "(k, e) \<in> set (rev (failures krs))" by (simp add: set_failures)
  moreover have "distinct (map fst (rev (failures krs)))"
    using distinct_failures [OF d] by (simp add: rev_map [symmetric])
  ultimately have "map_of (rev (failures krs)) k = Some e" by (rule map_of_is_SomeI [rotated])
  with Some show ?thesis by (simp add: map_of_store)
qed

lemma slice_keys:
  "map (\<lambda>jv. Itoa (int (fst jv))) (List.enumerate 0 vs) = map (\<lambda>j. Itoa (int j)) [0..<length vs]"
  by (rule nth_equalityI) (simp_all add: nth_enumerate_eq)

lemma distinct_slice_keys: "distinct (map (\<lambda>j. Itoa (int j)) [0..<n])"
  by (rule distinct_map [THEN iffD2]) (auto intro!: inj_onI dest: Itoa_nat_inj)

lemma validateSlice_spec:
  assumes "map (validateElement core E ctx) (Elements rv) = map Return rs"
  shows "\<exists>es. validateSlice core E ctx rv = Return (if es \<noteq> [] then Some (Errors es) else None)
        \<and> (\<forall>i<length rs. map_of es (Itoa (int i)) = rs ! i)
        \<and> (\<forall>k. map_of es k \<noteq> None \<longrightarrow> (\<exists>i<length rs. k = Itoa (int i)))"
proof -
  let ?ks = "map (\<lambda>j. Itoa (int j)) [0..<length (Elements rv)]"
  let ?krs = "zip ?ks rs"
  let ?es = "fold store_error ?krs []"
  from assms have len: "length rs = length (Elements rv)"
    by (metis length_map)
  have run: "validateSlice core E ctx rv = Return (if ?es \<noteq> [] then Some (Errors ?es) else None)"
    using validateSlice_loop_fold [OF assms, of 0 "[]"]
    by (simp add: validateSlice_def slice_keys Let_def)
  have keys: "map fst ?krs = ?ks" using len by simp
  have d: "distinct (map fst ?krs)" unfolding keys by (rule distinct_slice_keys)
  have at: "\<forall>i<length rs. map_of ?es (Itoa (int i)) = rs ! i"
  proof (intro allI impI)
    fix i assume i: "i < length rs"
    with len have "?krs ! i = (Itoa (int i), rs ! i)" by simp
    moreover from i len have "i < length ?krs" by simp
    ultimately have "(Itoa (int i), rs ! i) \<in> set ?krs" by (metis nth_mem)
    with d show "map_of ?es (Itoa (int i)) = rs ! i" by (rule stored_distinct)
  qed
  have only: "\<forall>k. map_of ?es k \<noteq> None \<longrightarrow> (\<exists>i<length rs. k = Itoa (int i))"
  proof (intro allI impI)
    fix k assume "map_of ?es k \<noteq> None"
    then obtain e where "(k, Some e) \<in> set ?krs" using stored_key [of ?krs k] by blast
    then have "k \<in> set ?ks" by (rule set_zip_leftD)
    with len show "\<exists>i<length rs. k = Itoa (int i)" by auto
  qed
  from run at only show ?thesis by blast
qed

lemma validateMap_spec:
  assumes "map (\<lambda>kv. validateElement core E ctx (snd kv, None)) (MapEntries (fst mv)) = map Return ms"
  shows "\<exists>es. validateMap core E ctx mv = Return (if es \<noteq> [] then Some (Errors es) else None)
        \<and> (\<forall>j<length ms. ms ! j \<noteq> None \<longrightarrow>
              map_of es (Sprintf_v (Lib E) (Interface (fst (MapEntries (fst mv) ! j)))) \<noteq> None)
        \<and> (distinct (map (\<lambda>kv. Sprintf_v (Lib E) (Interface (fst kv))) (MapEntries (fst mv))) \<longrightarrow>
             (\<forall>j<length ms.
                map_of es (Sprintf_v (Lib E) (Interface (fst (MapEntries (fst mv) ! j)))) = ms ! j))
        \<and> (\<forall>k. map_of es k \<noteq> None \<longrightarrow>
             (\<exists>j<length ms. ms ! j \<noteq> None
                \<and> k = Sprintf_v (Lib E) (Interface (fst (MapEntries (fst mv) ! j)))))"
proof -
  let ?kvs = "MapEntries (fst mv)"
  let ?key = "\<lambda>kv. Sprintf_v (Lib E) (Interface (fst kv))"
  let ?ks = "map ?key ?kvs"
  let ?krs = "zip ?ks ms"
  let ?es = "fold store_error ?krs []"
  from assms have len: "length ms = length ?kvs"
    by (metis length_map)
  have run: "validateMap core E ctx mv = Return (if ?es \<noteq> [] then Some (Errors ?es) else None)"
    using validateMap_loop_fold [OF assms, of "[]"]
    by (simp add: validateMap_def Let_def)
  have keys: "map fst ?krs = ?ks" using len by simp
  have nth: "\<And>j. j < length ms \<Longrightarrow> (?key (?kvs ! j), ms ! j) \<in> set ?krs"
  proof -
    fix j assume j: "j < length ms"
    with len have "?krs ! j = (?key (?kvs ! j), ms ! j)" by simp
    moreover from j len have "j < length ?krs" by simp
    ultimately show "(?key (?kvs ! j), ms ! j) \<in> set ?krs" by (metis nth_mem)
  qed
  have inmap: "\<forall>j<length ms. ms ! j \<noteq> None \<longrightarrow> map_of ?es (?key (?kvs ! j)) \<noteq> None"
  proof (intro allI impI)
    fix j assume j: "j < length ms" and e: "ms ! j \<noteq> None"
    then obtain e' where "ms ! j = Some e'" by auto
    with nth [OF j] have "(?key (?kvs ! j), Some e') \<in> set ?krs" by simp
    then show "map_of ?es (?key (?kvs ! j)) \<noteq> None" using stored_key [of ?krs] by blast
  qed
  have exact: "distinct ?ks \<longrightarrow> (\<forall>j<length ms. map_of ?es (?key (?kvs ! j)) = ms ! j)"
  proof (intro allI impI)
    fix j assume d: "distinct ?ks" and j: "j < length ms"
    from d keys have "distinct (map fst ?krs)" by simp
    then show "map_of ?es (?key (?kvs ! j)) = ms ! j" using nth [OF j] by (rule stored_distinct)
  qed
  have only: "\<forall>k. map_of ?es k \<noteq> None \<longrightarrow>
             (\<exists>j<length ms. ms ! j \<noteq> None \<and> k = ?key (?kvs ! j))"
  proof (intro allI impI)
    fix k assume "map_of ?es k \<noteq> None"
    then obtain e where "(k, Some e) \<in> set ?krs" using stored_key [of ?krs k] by blast
    then obtain j where "j < length ?krs" and "?krs ! j = (k, Some e)"
      by (metis in_set_conv_nth)
    with len have "j < length ms \<and> ms ! j \<noteq> None \<and> k = ?key (?kvs ! j)" by simp
    then show "\<exists>j<length ms. ms ! j \<noteq> None \<and> k = ?key (?kvs ! j)" by blast
  qed
  from run inmap exact only show ?thesis by blast
qed

lemma validateElement_nil:
  "(Kind (fst v) = KPtr \<or> Kind (fst v) = KInterface) \<and> IsNil (fst v) \<Longrightarrow>
   validateElement core E ctx v = Return None"
  by (simp add: validateElement_def)

lemma validateCore_collection:
  assumes "call_Rules E ctx value = None" and "method_of (ValueRules_method E) value = None"
    and "TypeOf value = Some t" and "TypeElem t = Some et" and "shouldAutoValidate E et"
  shows "(Kind value = KSlice \<or> Kind value = KArray \<longrightarrow>
           validateCore (Suc n) E ctx value = validateSlice (validateCore n E) E ctx (value, None))
       \<and> (Kind value = KMap \<longrightarrow>
           validateCore (Suc n) E ctx value = validateMap (validateCore n E) E ctx (value, None))"
  using assms by (cases "value") (simp_all add: Indirect_def Let_def)

text \<open>
  Claim C3.  When every element of a slice or an array has been validated, validateSlice
  returns the map \<open>es\<close> of the errors, or nil if it is empty: under the decimal numeral of
  \<open>i\<close> it holds the error of element \<open>i\<close>, nothing if the element is valid, and it has no
  other key.  validateMap stores the error of an entry under the key as \<^verbatim>\<open>%v\<close> prints it; the
  map of the errors has these keys only, and it holds the error of every entry if no two
  keys print alike.  A nil pointer and a nil interface are valid elements.  validateCore
  hands a collection to these functions if the type of its elements is validated
  automatically and the collection has no rules of its own.
\<close>

theorem collection_error_keys:
  "(map (validateElement core E ctx) (Elements rv) = map Return rs \<longrightarrow>
      (\<exists>es. validateSlice core E ctx rv = Return (if es \<noteq> [] then Some (Errors es) else None)
         \<and> (\<forall>i<length rs. map_of es (Itoa (int i)) = rs ! i)
         \<and> (\<forall>k. map_of es k \<noteq> None \<longrightarrow> (\<exists>i<length rs. k = Itoa (int i)))))
   \<and> (map (\<lambda>kv. validateElement core E ctx (snd kv, None)) (MapEntries (fst mv)) = map Return ms \<longrightarrow>
      (\<exists>es. validateMap core E ctx mv = Return (if es \<noteq> [] then Some (Errors es) else None)
         \<and> (\<forall>j<length ms. ms ! j \<noteq> None \<longrightarrow>
               map_of es (Sprintf_v (Lib E) (Interface (fst (MapEntries (fst mv) ! j)))) \<noteq> None)
         \<and> (distinct (map (\<lambda>kv. Sprintf_v (Lib E) (Interface (fst kv))) (MapEntries (fst mv))) \<longrightarrow>
              (\<forall>j<length ms.
                 map_of es (Sprintf_v (Lib E) (Interface (fst (MapEntries (fst mv) ! j)))) = ms ! j))
         \<and> (\<forall>k. map_of es k \<noteq> None \<longrightarrow>
              (\<exists>j<length ms. ms ! j \<noteq> None
                 \<and> k = Sprintf_v (Lib E) (Interface (fst (MapEntries (fst mv) ! j)))))))
   \<and> ((Kind (fst v) = KPtr \<or> Kind (fst v) = KInterface) \<and> IsNil (fst v) \<longrightarrow>
        validateElement core E ctx v = Return None)
   \<and> (call_Rules E ctx c = None \<and> method_of (ValueRules_method E) c = None
        \<and> TypeOf c = Some t \<and> TypeElem t = Some et \<and> shouldAutoValidate E et \<longrightarrow>
        (Kind c = KSlice \<or> Kind c = KArray \<longrightarrow>
           validateCore (Suc n) E ctx c = validateSlice (validateCore n E) E ctx (c, None))
        \<and> (Kind c = KMap \<longrightarrow>
           validateCore (Suc n) E ctx c = validateMap (validateCore n E) E ctx (c, None)))"
proof (intro conjI impI)
  assume "map (validateElement core E ctx) (Elements rv) = map Return rs"
  then show "\<exists>es. validateSlice core E ctx rv = Return (if es \<noteq> [] then Some (Errors es) else None)
         \<and> (\<forall>i<length rs. map_of es (Itoa (int i)) = rs ! i)
         \<and> (\<forall>k. map_of es k \<noteq> None \<longrightarrow> (\<exists>i<length rs. k = Itoa (int i)))"
    by (rule validateSlice_spec)
next
  assume "map (\<lambda>kv. validateElement core E ctx (snd kv, None)) (MapEntries (fst mv)) = map Return ms"
  then show "\<exists>es. validateMap core E ctx mv = Return (if es \<noteq> [] then Some (Errors es) else None)
         \<and> (\<forall>j<length ms. ms ! j \<noteq> None \<longrightarrow>
               map_of es (Sprintf_v (Lib E) (Interface (fst (MapEntries (fst mv) ! j)))) \<noteq> None)
         \<and> (distinct (map (\<lambda>kv. Sprintf_v (Lib E) (Interface (fst kv))) (MapEntries (fst mv))) \<longrightarrow>
              (\<forall>j<length ms.
                 map_of es (Sprintf_v (Lib E) (Interface (fst (MapEntries (fst mv) ! j)))) = ms ! j))
         \<and> (\<forall>k. map_of es k \<noteq> None \<longrightarrow>
              (\<exists>j<length ms. ms ! j \<noteq> None
                 \<and> k = Sprintf_v (Lib E) (Interface (fst (MapEntries (fst mv) ! j)))))"
    by (rule validateMap_spec)
next
  assume "(Kind (fst v) = KPtr \<or> Kind (fst v) = KInterface) \<and> IsNil (fst v)"
  then show "validateElement core E ctx v = Return None" by (rule validateElement_nil)
next
  assume h: "call_Rules E ctx c = None \<and> method_of (ValueRules_method E) c = None
        \<and> TypeOf c = Some t \<and> TypeElem t = Some et \<and> shouldAutoValidate E et"
    and k: "Kind c = KSlice \<or> Kind c = KArray"
  from h have "Kind c = KSlice \<or> Kind c = KArray \<longrightarrow>
           validateCore (Suc n) E ctx c = validateSlice (validateCore n E) E ctx (c, None)"
    by (elim conjE) (rule validateCore_collection [THEN conjunct1])
  with k show "validateCore (Suc n) E ctx c = validateSlice (validateCore n E) E ctx (c, None)"
    by (rule rev_mp)
next
  assume h: "call_Rules E ctx c = None \<and> method_of (ValueRules_method E) c = None
        \<and> TypeOf c = Some t \<and> TypeElem t = Some et \<and> shouldAutoValidate E et"
    and k: "Kind c = KMap"
  from h have "Kind c = KMap \<longrightarrow>
           validateCore (Suc n) E ctx c = validateMap (validateCore n E) E ctx (c, None)"
    by (elim conjE) (rule validateCore_collection [THEN conjunct2])
  with k show "validateCore (Suc n) E ctx c = validateMap (validateCore n E) E ctx (c, None)"
    by (rule rev_mp)
qed

subsection \<open>Describe: which rules are idempotent\<close>

lemma HasSuffix_append_space [simp]: "HasSuffix (d @ '' '') '' ''"
  by (simp add: HasSuffix_def)




lemma appendDescription_Required [simp]:
  "Required (appendDescription desc x) = Required x"
  by (simp add: appendDescription_def Let_def)







subsection \<open>The order of the normalization hooks\<close>


lemma path_less_child: "p < p @ j # r"
  by (induction p) simp_all

lemma path_less_sibling: "i < j \<Longrightarrow> p @ i # r < p @ j # r'"
  by (induction p) simp_all

lemma below_Nil [simp]: "below p k []"
  by (simp add: below_def)

lemma at_or_below_Nil [simp]: "at_or_below p []"
  by (simp add: at_or_below_def)

lemma below_imp_at_or_below: "below p k tr \<Longrightarrow> at_or_below p tr"
  by (fastforce simp add: below_def at_or_below_def)

lemma at_or_below_hook: "below p 0 tr \<Longrightarrow> at_or_below p ([p] @ tr)"
  by (auto simp add: below_def at_or_below_def path_less_child)

lemma below_block:
  assumes "at_or_below (p @ [k]) tr1" and "below p (Suc k) tr2"
  shows "below p k (tr1 @ tr2)"
proof -
  have "\<And>q q'. q \<in> set tr1 \<Longrightarrow> q' \<in> set tr2 \<Longrightarrow> q < q'"
  proof -
    fix q q' assume "q \<in> set tr1" and "q' \<in> set tr2"
    then obtain r j r' where "q = p @ k # r" and "Suc k \<le> j" and "q' = p @ j # r'"
      using assms by (fastforce simp add: at_or_below_def below_def)
    then show "q < q'" using path_less_sibling [of k j p r r'] by simp
  qed
  moreover have "\<forall>q\<in>set tr1. \<exists>j r. k \<le> j \<and> q = p @ j # r"
    using assms(1) by (fastforce simp add: at_or_below_def)
  moreover have "\<forall>q\<in>set tr2. \<exists>j r. k \<le> j \<and> q = p @ j # r"
    using assms(2) by (fastforce simp add: below_def)
  ultimately show ?thesis
    using assms by (auto simp add: below_def at_or_below_def sorted_wrt_append)
qed

lemma collect_blocks:
  assumes "\<And>j x y tr. f (j, x) = Return (y, tr) \<Longrightarrow> at_or_below (p @ [j]) tr"
  shows "collect (map f (zip [k..<k + length xs] xs)) = Return (ys, tr) \<Longrightarrow> below p k tr"
proof (induction xs arbitrary: k ys tr)
  case Nil
  then show ?case by simp
next
  case (Cons x xs)
  have u: "[k..<k + length (x # xs)] = k # [Suc k..<Suc k + length xs]"
    by (subst upt_rec) simp
  from Cons.prems obtain y tr1 ys' tr2 where
    h: "f (k, x) = Return (y, tr1)"
    and t: "collect (map f (zip [Suc k..<Suc k + length xs] xs)) = Return (ys', tr2)"
    and e: "tr = tr1 @ tr2"
    unfolding u by (auto simp add: obind_Return)
  from Cons.IH [OF t] assms [OF h] e show ?case
    using below_block by blast
qed

lemma collect_blocks0:
  assumes "\<And>j x y tr. f (j, x) = Return (y, tr) \<Longrightarrow> at_or_below (p @ [j]) tr"
    and "collect (map f (zip [0..<length xs] xs)) = Return (ys, tr)"
  shows "below p 0 tr"
  using collect_blocks [of f p 0 xs ys tr] assms by simp

lemma callNormalize_trace:
  "callNormalize E ctx p v = (v', tr) \<Longrightarrow> tr = [] \<or> tr = [p]"
  by (auto simp add: callNormalize_def split: option.splits normalize_method.splits)

lemma walkStructOrPtr_ordered:
  assumes "ordered_walker walk" and "walkStructOrPtr walk E ctx p fl ad v = Return (v', tr)"
  shows "at_or_below p tr"
proof -
  have w: "\<And>fl rv x tr. walk p fl rv = Return (x, tr) \<Longrightarrow> below p 0 tr"
    using assms(1) unfolding ordered_walker_def by blast
  have c: "\<And>tr1 tr2. tr1 = [] \<or> tr1 = [p] \<Longrightarrow> below p 0 tr2 \<Longrightarrow> at_or_below p (tr1 @ tr2)"
    using at_or_below_hook below_imp_at_or_below by fastforce
  have c1: "\<And>tr1. tr1 = [] \<or> tr1 = [p] \<Longrightarrow> at_or_below p tr1"
    using c [of _ "[]"] by simp
  consider (struct) "Kind v = KStruct" | (ptr) "Kind v = KPtr" | (other) "Kind v \<noteq> KStruct" "Kind v \<noteq> KPtr"
    by blast
  then show ?thesis
  proof cases
    case struct
    with assms(2) obtain v1 tr1 v2 tr2 where
      h: "(case ad of Some a \<Rightarrow> if RO fl then Panic
            else (let (q, tr) = callNormalize E ctx p (Addr v a) in Return (fst (Elem q), tr))
          | None \<Rightarrow> Return (v, [])) = Return (v1, tr1)"
      and k: "walk p fl (v1, ad) = Return (v2, tr2)" and e: "tr = tr1 @ tr2"
      by (auto simp add: walkStructOrPtr_def obind_Return)
    from h have "tr1 = [] \<or> tr1 = [p]"
      by (auto split: option.splits if_splits prod.splits dest: callNormalize_trace)
    with w [OF k] e show ?thesis using c by blast
  next
    case ptr
    show ?thesis
    proof (cases "IsNil v \<or> RO fl")
      case True
      with ptr assms(2) show ?thesis
        by (auto simp add: walkStructOrPtr_def split: if_splits)
    next
      case False
      obtain v1 tr1 where cn: "callNormalize E ctx p (Interface v) = (v1, tr1)"
        by (cases "callNormalize E ctx p (Interface v)")
      then have t1: "tr1 = [] \<or> tr1 = [p]" by (rule callNormalize_trace)
      show ?thesis
      proof (cases "Kind (fst (Elem v1)) = KStruct")
        case True
        with False ptr cn assms(2) obtain x tr2 where
          k: "walk p fl (Elem v1) = Return (x, tr2)" and e: "tr = tr1 @ tr2"
          by (auto simp add: walkStructOrPtr_def obind_Return)
        from w [of fl "Elem v1"] k have "below p 0 tr2"
          by (cases "Elem v1") auto
        with t1 e show ?thesis using c by blast
      next
        case nk: False
        with False ptr cn assms(2) have "tr = tr1"
          by (auto simp add: walkStructOrPtr_def)
        with t1 show ?thesis using c1 by blast
      qed
    qed
  next
    case other
    with assms(2) show ?thesis by (simp add: walkStructOrPtr_def)
  qed
qed

lemma at_or_below_extend: "at_or_below (p @ [j]) tr \<Longrightarrow> at_or_below p tr"
  by (fastforce simp add: at_or_below_def)

lemma walkSlice_ordered:
  assumes "ordered_walker walk" and "walkSlice walk E ctx p fl es = Return (es', tr)"
  shows "below p 0 tr"
proof (rule collect_blocks0 [where xs = es and ys = es'])
  show "collect (map (\<lambda>(j, a, elem).
         obind (walkStructOrPtr walk E ctx (p @ [j]) (Index_flag fl) (Some a) elem)
           (\<lambda>(elem', tr). Return ((a, elem'), tr))) (zip [0..<length es] es)) = Return (es', tr)"
    using assms(2) by (simp add: walkSlice_def)
next
  fix j x y tr
  assume "(case (j, x) of (j, a, elem) \<Rightarrow>
         obind (walkStructOrPtr walk E ctx (p @ [j]) (Index_flag fl) (Some a) elem)
           (\<lambda>(elem', tr). Return ((a, elem'), tr))) = Return (y, tr)"
  then obtain a elem elem' where
    "walkStructOrPtr walk E ctx (p @ [j]) (Index_flag fl) (Some a) elem = Return (elem', tr)"
    by (cases x) (auto simp add: obind_Return)
  then show "at_or_below (p @ [j]) tr"
    by (rule walkStructOrPtr_ordered [OF assms(1)])
qed

lemma walkMap_ordered:
  assumes "ordered_walker walk" and "walkMap walk E ctx p fl kvs = Return (kvs', tr)"
  shows "below p 0 tr"
proof (rule collect_blocks0 [where xs = kvs and ys = kvs'])
  show "collect (map (\<lambda>(k, key, val).
         if Kind val = KStruct then
           (if RO fl then Panic
            else
              let cp = New_copy E val;
                  (cp1, tr1) = callNormalize E ctx (p @ [k]) (Interface cp)
              in obind (walk (p @ [k]) (False, False) (Elem cp1))
                   (\<lambda>(x, tr2). Return ((key, x), tr1 @ tr2)))
         else Return ((key, val), [])) (zip [0..<length kvs] kvs)) = Return (kvs', tr)"
    using assms(2) by (simp add: walkMap_def)
next
  fix k x y tr
  assume a: "(case (k, x) of (k, key, val) \<Rightarrow>
         if Kind val = KStruct then
           (if RO fl then Panic
            else
              let cp = New_copy E val;
                  (cp1, tr1) = callNormalize E ctx (p @ [k]) (Interface cp)
              in obind (walk (p @ [k]) (False, False) (Elem cp1))
                   (\<lambda>(x, tr2). Return ((key, x), tr1 @ tr2)))
         else Return ((key, val), [])) = Return (y, tr)"
  obtain key val where x: "x = (key, val)" by (cases x)
  show "at_or_below (p @ [k]) tr"
  proof (cases "Kind val = KStruct")
    case False
    with a x show ?thesis by simp
  next
    case True
    obtain cp1 tr1 where cn: "callNormalize E ctx (p @ [k]) (Interface (New_copy E val)) = (cp1, tr1)"
      by (cases "callNormalize E ctx (p @ [k]) (Interface (New_copy E val))")
    then have t1: "tr1 = [] \<or> tr1 = [p @ [k]]" by (rule callNormalize_trace)
    from True a x cn obtain z tr2 where
      k: "walk (p @ [k]) (False, False) (Elem cp1) = Return (z, tr2)" and e: "tr = tr1 @ tr2"
      by (auto simp add: obind_Return Let_def split: if_splits)
    have "below (p @ [k]) 0 tr2"
      using assms(1) k unfolding ordered_walker_def by (cases "Elem cp1") auto
    with t1 e show ?thesis
      using at_or_below_hook [of "p @ [k]" tr2] below_imp_at_or_below [of "p @ [k]" 0 tr2]
      by auto
  qed
qed

lemma walkField_ordered:
  assumes "ordered_walker walk" and "walkField walk E ctx p fl ad v = Return (v', tr)"
  shows "at_or_below p tr"
proof (cases v)
  case (VSlice t es)
  with assms(2) obtain es' where "walkSlice walk E ctx p fl es = Return (es', tr)"
    by (auto simp add: walkField_def obind_Return)
  from walkSlice_ordered [OF assms(1) this] show ?thesis by (rule below_imp_at_or_below)
next
  case (VMap t kvs)
  with assms(2) obtain kvs' where "walkMap walk E ctx p fl kvs = Return (kvs', tr)"
    by (auto simp add: walkField_def obind_Return)
  from walkMap_ordered [OF assms(1) this] show ?thesis by (rule below_imp_at_or_below)
qed (use assms walkStructOrPtr_ordered in \<open>auto simp add: walkField_def\<close>)

lemma walkNormalize_ordered: "ordered_walker (walkNormalize n E ctx)"
proof (induction n)
  case 0
  show ?case by (simp add: ordered_walker_def)
next
  case (Suc n)
  show ?case
    unfolding ordered_walker_def
  proof (intro allI impI)
    fix p fl rv x tr
    assume a: "walkNormalize (Suc n) E ctx p fl rv = Return (x, tr)"
    then obtain t fs where s: "fst rv = VStruct t fs"
      by (cases "fst rv") (auto)
    let ?f = "\<lambda>(i, sf, a, field).
                 obind
                   (walkField (walkNormalize n E ctx) E ctx (p @ [i]) (Field_flag fl sf)
                      (if snd rv = None then None else Some a) field)
                   (\<lambda>(field', tr). Return ((sf, a, field'), tr))"
    from a s obtain fs' where c: "collect (map ?f (zip [0..<length fs] fs)) = Return (fs', tr)"
      by (auto simp add: obind_Return)
    show "below p 0 tr"
    proof (rule collect_blocks0 [where f = ?f and xs = fs and ys = fs'])
      show "collect (map ?f (zip [0..<length fs] fs)) = Return (fs', tr)" by (rule c)
    next
      fix j x y tr
      assume "?f (j, x) = Return (y, tr)"
      then obtain sf a field field' where
        "walkField (walkNormalize n E ctx) E ctx (p @ [j]) (Field_flag fl sf)
           (if snd rv = None then None else Some a) field = Return (field', tr)"
        by (cases x) (auto simp add: obind_Return)
      then show "at_or_below (p @ [j]) tr"
        by (rule walkField_ordered [OF Suc.IH])
    qed
  qed
qed

lemma normalizeRecursive_ordered:
  assumes "normalizeRecursive n E ctx a = Return (a', tr)"
  shows "sorted_wrt (<) tr"
proof -
  have w: "\<And>rv x tr2. walkNormalize n E ctx [] (False, False) rv = Return (x, tr2) \<Longrightarrow> below [] 0 tr2"
    using walkNormalize_ordered [of n E ctx] unfolding ordered_walker_def by blast
  obtain a1 tr1 where cn: "callNormalize E ctx [] a = (a1, tr1)"
    by (cases "callNormalize E ctx [] a")
  then have t1: "tr1 = [] \<or> tr1 = [[]]" by (rule callNormalize_trace)
  have "at_or_below [] tr"
  proof (cases "a = VNil")
    case True
    with assms show ?thesis by (simp add: normalizeRecursive_def)
  next
    case False
    from assms False cn consider (hook) "tr = tr1"
      | (ptr) x tr2 where "walkNormalize n E ctx [] (False, False) (Elem a1) = Return (x, tr2)"
          "tr = tr1 @ tr2"
      | (struct) x tr2 where "walkNormalize n E ctx [] (False, False) (a1, None) = Return (x, tr2)"
          "tr = tr1 @ tr2"
      by (auto simp add: normalizeRecursive_def obind_Return split: if_splits)
    then show ?thesis
    proof cases
      case hook
      with t1 show ?thesis by (auto simp add: at_or_below_def)
    next
      case ptr
      from w [OF ptr(1)] t1 ptr(2) show ?thesis
        using at_or_below_hook [of "[]" tr2] below_imp_at_or_below [of "[]" 0 tr2] by auto
    next
      case struct
      from w [OF struct(1)] t1 struct(2) show ?thesis
        using at_or_below_hook [of "[]" tr2] below_imp_at_or_below [of "[]" 0 tr2] by auto
    qed
  qed
  then show ?thesis by (simp add: at_or_below_def)
qed



lemma collect_nth:
  "collect (map f (zip [k..<k + length xs] xs)) = Return (ys, tr) \<Longrightarrow>
   length ys = length xs \<and> (\<forall>i<length xs. \<exists>tri. f (k + i, xs ! i) = Return (ys ! i, tri))"
proof (induction xs arbitrary: k ys tr)
  case Nil
  then show ?case by simp
next
  case (Cons x xs)
  have u: "[k..<k + length (x # xs)] = k # [Suc k..<Suc k + length xs]"
    by (subst upt_rec) simp
  from Cons.prems obtain y tr1 ys' tr2 where
    h: "f (k, x) = Return (y, tr1)"
    and t: "collect (map f (zip [Suc k..<Suc k + length xs] xs)) = Return (ys', tr2)"
    and e: "ys = y # ys'"
    unfolding u by (auto simp add: obind_Return)
  from Cons.IH [OF t] have l: "length ys' = length xs"
    and n: "\<forall>i<length xs. \<exists>tri. f (Suc k + i, xs ! i) = Return (ys' ! i, tri)" by auto
  have "\<exists>tri. f (k + i, (x # xs) ! i) = Return (ys ! i, tri)" if "i < length (x # xs)" for i
  proof (cases i)
    case 0
    with h e show ?thesis by simp
  next
    case (Suc i')
    with that n e show ?thesis by simp
  qed
  with l e show ?case by simp
qed

lemma walkMap_entries:
  assumes "walkMap walk E ctx p fl kvs = Return (kvs', tr)"
  shows "map fst kvs' = map fst kvs"
    and "\<forall>k<length kvs.
           if Kind (snd (kvs ! k)) = KStruct
           then \<exists>tr2. walk (p @ [k]) (False, False)
                        (Elem (fst (callNormalize E ctx (p @ [k]) (Interface (New_copy E (snd (kvs ! k)))))))
                      = Return (snd (kvs' ! k), tr2)
           else kvs' ! k = kvs ! k"
proof -
  let ?f = "\<lambda>(k, key, val).
         if Kind val = KStruct then
           (if RO fl then Panic
            else
              let cp = New_copy E val;
                  (cp1, tr1) = callNormalize E ctx (p @ [k]) (Interface cp)
              in obind (walk (p @ [k]) (False, False) (Elem cp1))
                   (\<lambda>(x, tr2). Return ((key, x), tr1 @ tr2)))
         else Return ((key, val), [])"
  from assms have c: "collect (map ?f (zip [0..<0 + length kvs] kvs)) = Return (kvs', tr)"
    by (simp add: walkMap_def)
  from collect_nth [OF c] have l: "length kvs' = length kvs"
    and n: "\<And>k. k < length kvs \<Longrightarrow> \<exists>tri. ?f (k, kvs ! k) = Return (kvs' ! k, tri)" by auto
  have one: "fst (kvs' ! k) = fst (kvs ! k) \<and>
       (if Kind (snd (kvs ! k)) = KStruct
           then \<exists>tr2. walk (p @ [k]) (False, False)
                        (Elem (fst (callNormalize E ctx (p @ [k]) (Interface (New_copy E (snd (kvs ! k)))))))
                      = Return (snd (kvs' ! k), tr2)
           else kvs' ! k = kvs ! k)" if "k < length kvs" for k
  proof -
    obtain key val where kv: "kvs ! k = (key, val)" by (cases "kvs ! k")
    obtain key' val' where kv': "kvs' ! k = (key', val')" by (cases "kvs' ! k")
    from n [OF that] kv kv' show ?thesis
      by (auto simp add: obind_Return Let_def split: if_splits prod.splits)
  qed
  show "map fst kvs' = map fst kvs"
    using l one by (simp add: list_eq_iff_nth_eq)
  show "\<forall>k<length kvs.
           if Kind (snd (kvs ! k)) = KStruct
           then \<exists>tr2. walk (p @ [k]) (False, False)
                        (Elem (fst (callNormalize E ctx (p @ [k]) (Interface (New_copy E (snd (kvs ! k)))))))
                      = Return (snd (kvs' ! k), tr2)
           else kvs' ! k = kvs ! k"
    using one by blast
qed

lemma callNormalize_hook:
  "method_of (Normalize_method E) v \<noteq> None \<Longrightarrow> snd (callNormalize E ctx p v) = [p]"
  by (auto simp add: callNormalize_def split: option.splits normalize_method.splits)

lemma walkStructOrPtr_hook_first:
  assumes "walkStructOrPtr walk E ctx p fl ad v = Return (v', tr)" and "has_hook E ad v"
  shows "tr \<noteq> [] \<and> hd tr = p"
proof (cases "Kind v = KStruct")
  case True
  with assms(2) obtain a where a: "ad = Some a" "method_of (Normalize_method E) (Addr v a) \<noteq> None"
    by (auto simp add: has_hook_def)
  from callNormalize_hook [OF a(2), of ctx p] True a(1) assms(1) show ?thesis
    by (auto simp add: walkStructOrPtr_def obind_Return Let_def split: if_splits prod.splits)
next
  case False
  with assms(2) have h: "Kind v = KPtr" "\<not> IsNil v" "method_of (Normalize_method E) (Interface v) \<noteq> None"
    by (auto simp add: has_hook_def)
  from callNormalize_hook [OF h(3), of ctx p] h(1,2) assms(1) show ?thesis
    by (auto simp add: walkStructOrPtr_def obind_Return Let_def split: if_splits prod.splits)
qed

lemma normalizeRecursive_hook_first:
  assumes "normalizeRecursive n E ctx a = Return (a', tr)" and "a \<noteq> VNil"
    and "method_of (Normalize_method E) a \<noteq> None"
  shows "tr \<noteq> [] \<and> hd tr = []"
  using assms callNormalize_hook [OF assms(3), of ctx "[]"]
  by (auto simp add: normalizeRecursive_def obind_Return Let_def split: if_splits prod.splits)

lemma collect_unchanged:
  "\<forall>x\<in>set xs. f x = Return (g x, []) \<Longrightarrow> collect (map f xs) = Return (map g xs, [])"
  by (induction xs) simp_all

lemma walkMap_pointers:
  assumes "\<forall>kv\<in>set kvs. Kind (snd kv) = KPtr"
  shows "walkMap walk E ctx p fl kvs = Return (kvs, [])"
proof -
  have "collect (map (\<lambda>(k, key, val).
         if Kind val = KStruct then
           (if RO fl then Panic
            else
              let cp = New_copy E val;
                  (cp1, tr1) = callNormalize E ctx (p @ [k]) (Interface cp)
              in obind (walk (p @ [k]) (False, False) (Elem cp1))
                   (\<lambda>(x, tr2). Return ((key, x), tr1 @ tr2)))
         else Return ((key, val), [])) (zip [0..<length kvs] kvs))
     = Return (map snd (zip [0..<length kvs] kvs), [])"
    using assms by (intro collect_unchanged) (auto dest!: set_zip_rightD)
  then show ?thesis by (simp add: walkMap_def)
qed


text \<open>
  Claim C7.  The hook calls of a normalization are made in depth-first order, a value
  before its parts: the list of the positions of the calls increases strictly in the
  lexicographic order, in which a position comes before the positions inside it and
  before those inside its later siblings.  When the top-level value has a hook, its call
  is the first.  Where the walk meets a struct or a pointer that has a hook, the call of
  that hook is the first of the calls made on the value and inside it.  For a map, every
  value of struct kind is copied to a fresh variable, the hook of the copy is called, the
  copy is walked, and the result is stored under the same key; the other entries stay
  as they are and the keys are unchanged.
\<close>

theorem normalization_order:
  "(normalizeRecursive n E ctx a = Return (a', tr) \<longrightarrow>
      sorted_wrt (<) tr
      \<and> (a \<noteq> VNil \<and> method_of (Normalize_method E) a \<noteq> None \<longrightarrow> tr \<noteq> [] \<and> hd tr = []))
   \<and> (walkStructOrPtr (walkNormalize n E ctx) E ctx p fl ad v = Return (v', trv) \<longrightarrow>
        at_or_below p trv \<and> (has_hook E ad v \<longrightarrow> trv \<noteq> [] \<and> hd trv = p))
   \<and> (walkMap (walkNormalize n E ctx) E ctx p fl kvs = Return (kvs', trm) \<longrightarrow>
        map fst kvs' = map fst kvs
        \<and> (\<forall>k<length kvs.
              if Kind (snd (kvs ! k)) = KStruct
              then \<exists>tr2. walkNormalize n E ctx (p @ [k]) (False, False)
                      (Elem (fst (callNormalize E ctx (p @ [k]) (Interface (New_copy E (snd (kvs ! k)))))))
                    = Return (snd (kvs' ! k), tr2)
              else kvs' ! k = kvs ! k))"
proof (intro conjI impI)
  assume "normalizeRecursive n E ctx a = Return (a', tr)"
  then show "sorted_wrt (<) tr" by (rule normalizeRecursive_ordered)
next
  assume "normalizeRecursive n E ctx a = Return (a', tr)"
    and "a \<noteq> VNil \<and> method_of (Normalize_method E) a \<noteq> None"
  then show "tr \<noteq> []" and "hd tr = []"
    using normalizeRecursive_hook_first by blast+
next
  assume "walkStructOrPtr (walkNormalize n E ctx) E ctx p fl ad v = Return (v', trv)"
  then show "at_or_below p trv"
    using walkStructOrPtr_ordered [OF walkNormalize_ordered] by blast
next
  assume "walkStructOrPtr (walkNormalize n E ctx) E ctx p fl ad v = Return (v', trv)"
    and "has_hook E ad v"
  then show "trv \<noteq> []" and "hd trv = p"
    using walkStructOrPtr_hook_first by blast+
next
  assume m: "walkMap (walkNormalize n E ctx) E ctx p fl kvs = Return (kvs', trm)"
  show "map fst kvs' = map fst kvs"
    by (rule walkMap_entries(1) [OF m])
  show "\<forall>k<length kvs.
              if Kind (snd (kvs ! k)) = KStruct
              then \<exists>tr2. walkNormalize n E ctx (p @ [k]) (False, False)
                      (Elem (fst (callNormalize E ctx (p @ [k]) (Interface (New_copy E (snd (kvs ! k)))))))
                    = Return (snd (kvs' ! k), tr2)
              else kvs' ! k = kvs ! k"
    by (rule walkMap_entries(2) [OF m])
qed

lemma example_normalization:
  "normalizeRecursive 5 exampleEnv Background exampleOrder
     = Return (exampleOrderNormalized, [[], [1, 0], [2, 0]])"
  by code_simp

lemma example_walk_element:
  "walkStructOrPtr (walkNormalize 4 exampleEnv Background) exampleEnv Background [1, 0]
        (False, False) (Some 200) (address 200 ''seattle'')
     = Return (address 200 ''SEATTLE'', [[1, 0]])"
  by code_simp

lemma example_walk_map:
  "walkMap (walkNormalize 4 exampleEnv Background) exampleEnv Background [2] (False, False)
        [(str ''home'', address 0 ''rome'')]
     = Return ([(str ''home'', address 4096 ''ROME'')], [[2, 0]])"
  by code_simp

lemma example_has_hook:
  "exampleOrder \<noteq> VNil \<and> method_of (Normalize_method exampleEnv) exampleOrder \<noteq> None
   \<and> has_hook exampleEnv (Some 200) (address 200 ''seattle'')"
  by (simp add: has_hook_def exampleOrder_def ptr_to_def order_def address_def Addr_def
      exampleEnv_def exampleNormalize_def method_of_def)

theorem normalization_order_witness:
  "normalizeRecursive 5 exampleEnv Background exampleOrder
     = Return (exampleOrderNormalized, [[], [1, 0], [2, 0]])
   \<and> sorted_wrt (<) [[], [1, 0], [2 :: nat, 0]]
   \<and> exampleOrder \<noteq> VNil \<and> method_of (Normalize_method exampleEnv) exampleOrder \<noteq> None
   \<and> hd [[], [1, 0], [2 :: nat, 0]] = []
   \<and> walkStructOrPtr (walkNormalize 4 exampleEnv Background) exampleEnv Background [1, 0]
        (False, False) (Some 200) (address 200 ''seattle'')
       = Return (address 200 ''SEATTLE'', [[1, 0]])
   \<and> has_hook exampleEnv (Some 200) (address 200 ''seattle'')
   \<and> at_or_below [1, 0] [[1, 0]]
   \<and> walkMap (walkNormalize 4 exampleEnv Background) exampleEnv Background [2] (False, False)
        [(str ''home'', address 0 ''rome'')]
       = Return ([(str ''home'', address 4096 ''ROME'')], [[2, 0]])
   \<and> map fst [(str ''home'', address 4096 ''ROME'')] = map fst [(str ''home'', address 0 ''rome'')]"
  using normalization_order
    [where n = 5 and E = exampleEnv and ctx = Background and a = exampleOrder
      and a' = exampleOrderNormalized and tr = "[[], [1, 0], [2, 0]]"]
    normalization_order
    [where n = 4 and E = exampleEnv and ctx = Background and p = "[1, 0]" and fl = "(False, False)"
      and ad = "Some 200" and v = "address 200 ''seattle''" and v' = "address 200 ''SEATTLE''"
      and trv = "[[1, 0]]"]
    normalization_order
    [where n = 4 and E = exampleEnv and ctx = Background and p = "[2]" and fl = "(False, False)"
      and kvs = "[(str ''home'', address 0 ''rome'')]"
      and kvs' = "[(str ''home'', address 4096 ''ROME'')]" and trm = "[[2, 0]]"]
    example_normalization example_walk_element example_walk_map example_has_hook
  by simp

text \<open>
  Claim C10.  In a map whose values are all of pointer kind, the walk calls no hook and
  leaves every entry as it is: the entries and the field come back unchanged, with no
  call recorded, whatever the pointers point to.
\<close>

theorem map_of_pointers_not_normalized:
  "(\<forall>kv\<in>set kvs. Kind (snd kv) = KPtr) \<longrightarrow>
     walkMap walk E ctx p fl kvs = Return (kvs, [])
     \<and> walkField walk E ctx p fl ad (VMap t kvs) = Return (VMap t kvs, [])"
  by (simp add: walkMap_pointers walkField_def)

theorem map_of_pointers_not_normalized_witness:
  "map (Kind \<circ> snd) [(str ''work'', ptr_to 300 (address 300 ''oslo''))] = [KPtr]
   \<and> method_of (Normalize_method exampleEnv) (ptr_to 300 (address 300 ''oslo'')) \<noteq> None
   \<and> walkField (walkNormalize 4 exampleEnv Background) exampleEnv Background [3] (False, False)
        (Some 148)
        (VMap (TMap [] (TBasic SString ''string'') (TPtr (TStruct ''address'')))
           [(str ''work'', ptr_to 300 (address 300 ''oslo''))])
       = Return (VMap (TMap [] (TBasic SString ''string'') (TPtr (TStruct ''address'')))
           [(str ''work'', ptr_to 300 (address 300 ''oslo''))], [])"
  using map_of_pointers_not_normalized
    [where kvs = "[(str ''work'', ptr_to 300 (address 300 ''oslo''))]"
      and walk = "walkNormalize 4 exampleEnv Background" and E = exampleEnv and ctx = Background
      and p = "[3]" and fl = "(False, False)" and ad = "Some 148"
      and t = "TMap [] (TBasic SString ''string'') (TPtr (TStruct ''address''))"]
  by (simp add: ptr_to_def address_def Addr_def exampleEnv_def exampleNormalize_def method_of_def)

subsection \<open>Rules on empty values\<close>

lemma TrimSpace_Nil [simp]: "TrimSpace [] = []"
  by (simp add: TrimSpace_def TrimLeftSpace.simps [of "[]"] TrimRightSpace.simps [of "[]"])








end
